theory Spec2Isabelle
  imports Main "HOL-Library.Word"
begin

section \<open>The TCP layer of axel (src/tcp.c)\<close>

text \<open>
  The file \<^verbatim>\<open>tcp.c\<close> talks to the operating system through the socket calls and to the
  C library through a handful of string functions. The embedding keeps the control flow of
  the four functions of the file as it is written and makes the surroundings explicit:
  \<^item> the process state the calls act on is the record \<open>kernel\<close>: the table of open
    descriptors, the descriptors switched to non-blocking mode, \<open>errno\<close>, and the trace
    of every call made so far together with what it returned;
  \<^item> what the outside decides (whether a call fails, and with which \<open>errno\<close>) is the
    record \<open>world\<close>: one reply per call kind and per instant, the instant being the
    number of calls made so far. The theorems hold for every world.
\<close>

subsection \<open>Constants of the system headers (Linux values)\<close>

definition AF_UNSPEC :: int where "AF_UNSPEC = 0"
definition AF_INET :: int where "AF_INET = 2"
definition PF_INET :: int where "PF_INET = 2"
definition SOCK_STREAM :: int where "SOCK_STREAM = 1"
definition SOCK_DGRAM :: int where "SOCK_DGRAM = 2"
definition IPPROTO_IP :: int where "IPPROTO_IP = 0"
definition AI_ADDRCONFIG :: int where "AI_ADDRCONFIG = 32"
definition O_NONBLOCK :: int where "O_NONBLOCK = 2048"
definition SOL_SOCKET :: int where "SOL_SOCKET = 1"
definition SO_RCVTIMEO :: int where "SO_RCVTIMEO = 20"
definition SO_SNDTIMEO :: int where "SO_SNDTIMEO = 21"
definition IFNAMSIZ :: nat where "IFNAMSIZ = 16"
definition EBADF :: int where "EBADF = 9"
definition EINPROGRESS :: int where "EINPROGRESS = 115"

subsection \<open>Data\<close>

text \<open>
  \<open>tcp_t\<close> is declared in \<^verbatim>\<open>axel.h\<close>; \<^verbatim>\<open>tcp.c\<close> uses its three fields \<open>fd\<close>,
  \<open>ai_family\<close> and (when built with \<^verbatim>\<open>HAVE_SSL\<close>) \<open>ssl\<close>. A session pointer is a
  number, \<open>NULL\<close> is \<open>None\<close>.
\<close>

record tcp_t =
  fd :: int
  ai_family :: int
  ssl :: "nat option"

record sockaddr_in =
  sin_family :: int
  sin_port :: "16 word"
  sin_addr :: "32 word"

text \<open>One entry of the list \<^verbatim>\<open>getaddrinfo\<close> returns; \<open>ai_next\<close> is the tail of the list.\<close>

record addrinfo =
  ai_flags :: int
  ai_family :: int
  ai_socktype :: int
  ai_protocol :: int
  ai_addr :: string

datatype syscall =
    Getaddrinfo string string addrinfo
  | Freeaddrinfo
  | Socket int int int
  | Bind int sockaddr_in
  | Fcntl_setfl int int
  | Connect int string
  | Select int nat
  | Close int
  | Setsockopt int int int nat
  | Ioctl_gifaddr int string
  | Ssl_connect int string
  | Ssl_disconnect nat

text \<open>What a call gave back: a return value, or \<open>-1\<close> with \<open>errno\<close> set to the code.\<close>

datatype result = Ret int | Err int

record kernel =
  open_fds :: "int list"
  nonblock :: "int list"
  errno :: int
  trace :: "(syscall \<times> result) list"

text \<open>
  The fate of a connection attempt: it is decided at once, or only later; either way it
  ends with success (\<open>None\<close>) or with an error code.
\<close>

datatype handshake = At_once "int option" | Later "int option"

text \<open>The fate of a bounded wait: \<^verbatim>\<open>select\<close> returns 1, 0 or \<open>-1\<close>.\<close>

datatype readiness = Ready | Timed_out | Wait_failed int

record world =
  getaddrinfo :: "string \<Rightarrow> string \<Rightarrow> addrinfo \<Rightarrow> int \<times> addrinfo list"
  gai_strerror :: "int \<Rightarrow> string"
  strerror :: "int \<Rightarrow> string"
  inet_addr :: "string \<Rightarrow> 32 word"
  inet_ntoa :: "32 word \<Rightarrow> string"
  socket_reply :: "nat \<Rightarrow> int option"
  bind_reply :: "nat \<Rightarrow> int option"
  connect_reply :: "nat \<Rightarrow> handshake"
  select_reply :: "nat \<Rightarrow> readiness"
  gifaddr_reply :: "nat \<Rightarrow> string \<Rightarrow> int + 32 word"
  ssl_reply :: "nat \<Rightarrow> string + nat"

subsection \<open>The system calls\<close>

definition now :: "kernel \<Rightarrow> nat" where
  "now k = length (trace k)"

text \<open>The calls made between two states of the kernel.\<close>

definition calls_since :: "kernel \<Rightarrow> kernel \<Rightarrow> (syscall \<times> result) list" where
  "calls_since k k' = drop (length (trace k)) (trace k')"

definition emit :: "syscall \<Rightarrow> result \<Rightarrow> kernel \<Rightarrow> kernel" where
  "emit c r k = k\<lparr>trace := trace k @ [(c, r)]\<rparr>"

definition fails :: "syscall \<Rightarrow> int \<Rightarrow> kernel \<Rightarrow> int \<times> kernel" where
  "fails c e k = (- 1, emit c (Err e) (k\<lparr>errno := e\<rparr>))"

definition returns :: "syscall \<Rightarrow> int \<Rightarrow> kernel \<Rightarrow> int \<times> kernel" where
  "returns c v k = (v, emit c (Ret v) k)"

text \<open>
  A new descriptor is the lowest number that is not open (POSIX, File Descriptor
  Allocation), and a new socket is in blocking mode.
\<close>

definition lowest_free :: "int list \<Rightarrow> int" where
  "lowest_free fds =
     (case filter (\<lambda>n. n \<notin> set fds) (map int [0..<Suc (length fds)]) of
        [] \<Rightarrow> int (length fds)
      | n # _ \<Rightarrow> n)"

definition sys_socket :: "world \<Rightarrow> int \<Rightarrow> int \<Rightarrow> int \<Rightarrow> kernel \<Rightarrow> int \<times> kernel" where
  "sys_socket w domain type protocol k =
     (case socket_reply w (now k) of
        Some e \<Rightarrow> fails (Socket domain type protocol) e k
      | None \<Rightarrow>
          (let new = lowest_free (open_fds k)
           in returns (Socket domain type protocol) new
                (k\<lparr>open_fds := new # open_fds k, nonblock := removeAll new (nonblock k)\<rparr>)))"

definition sys_bind :: "world \<Rightarrow> int \<Rightarrow> sockaddr_in \<Rightarrow> kernel \<Rightarrow> int \<times> kernel" where
  "sys_bind w s addr k =
     (case bind_reply w (now k) of
        Some e \<Rightarrow> fails (Bind s addr) e k
      | None \<Rightarrow> returns (Bind s addr) 0 k)"

text \<open>\<^verbatim>\<open>fcntl(fd, F_SETFL, flags)\<close>; the source ignores what it returns.\<close>

definition sys_fcntl_setfl :: "int \<Rightarrow> int \<Rightarrow> kernel \<Rightarrow> kernel" where
  "sys_fcntl_setfl s flags k =
     emit (Fcntl_setfl s flags) (Ret 0)
       (k\<lparr>nonblock := (if flags = O_NONBLOCK then s # removeAll s (nonblock k)
                        else removeAll s (nonblock k))\<rparr>)"

text \<open>
  On a blocking socket \<^verbatim>\<open>connect\<close> returns when the attempt is over; on a non-blocking one
  an attempt that is decided only later returns \<open>-1\<close> with \<open>EINPROGRESS\<close>.
\<close>

definition conclude :: "syscall \<Rightarrow> int option \<Rightarrow> kernel \<Rightarrow> int \<times> kernel" where
  "conclude c outcome k = (case outcome of None \<Rightarrow> returns c 0 k | Some e \<Rightarrow> fails c e k)"

definition sys_connect :: "world \<Rightarrow> int \<Rightarrow> string \<Rightarrow> kernel \<Rightarrow> int \<times> kernel" where
  "sys_connect w s addr k =
     (case connect_reply w (now k) of
        At_once outcome \<Rightarrow> conclude (Connect s addr) outcome k
      | Later outcome \<Rightarrow>
          (if s \<in> set (nonblock k) then fails (Connect s addr) EINPROGRESS k
           else conclude (Connect s addr) outcome k))"

text \<open>\<^verbatim>\<open>select(fd + 1, NULL, {fd}, NULL, {tv_sec, 0})\<close>.\<close>

definition sys_select :: "world \<Rightarrow> int \<Rightarrow> nat \<Rightarrow> kernel \<Rightarrow> int \<times> kernel" where
  "sys_select w s tv_sec k =
     (case select_reply w (now k) of
        Ready \<Rightarrow> returns (Select s tv_sec) 1 k
      | Timed_out \<Rightarrow> returns (Select s tv_sec) 0 k
      | Wait_failed e \<Rightarrow> fails (Select s tv_sec) e k)"

text \<open>\<^verbatim>\<open>close\<close>; the source ignores what it returns.\<close>

definition sys_close :: "int \<Rightarrow> kernel \<Rightarrow> kernel" where
  "sys_close s k =
     (if s \<in> set (open_fds k)
      then emit (Close s) (Ret 0)
             (k\<lparr>open_fds := removeAll s (open_fds k), nonblock := removeAll s (nonblock k)\<rparr>)
      else snd (fails (Close s) EBADF k))"

text \<open>\<^verbatim>\<open>setsockopt(fd, level, optname, {tv_sec, 0})\<close>; the source ignores what it returns.\<close>

definition sys_setsockopt :: "int \<Rightarrow> int \<Rightarrow> int \<Rightarrow> nat \<Rightarrow> kernel \<Rightarrow> kernel" where
  "sys_setsockopt s level optname tv_sec k = emit (Setsockopt s level optname tv_sec) (Ret 0) k"

text \<open>\<^verbatim>\<open>ioctl(fd, SIOCGIFADDR, &ifr)\<close>: the return value and the address stored in \<open>ifr\<close>.\<close>

definition sys_ioctl_gifaddr :: "world \<Rightarrow> int \<Rightarrow> string \<Rightarrow> kernel \<Rightarrow> int \<times> 32 word \<times> kernel" where
  "sys_ioctl_gifaddr w s ifr_name k =
     (case gifaddr_reply w (now k) ifr_name of
        Inl e \<Rightarrow> (- 1, 0, snd (fails (Ioctl_gifaddr s ifr_name) e k))
      | Inr a \<Rightarrow> (0, a, snd (returns (Ioctl_gifaddr s ifr_name) 0 k)))"

definition sys_getaddrinfo ::
  "world \<Rightarrow> string \<Rightarrow> string \<Rightarrow> addrinfo \<Rightarrow> kernel \<Rightarrow> int \<times> addrinfo list \<times> kernel" where
  "sys_getaddrinfo w node service hints k =
     (case getaddrinfo w node service hints of
        (rc, res) \<Rightarrow> (rc, res, emit (Getaddrinfo node service hints) (Ret rc) k))"

definition sys_freeaddrinfo :: "kernel \<Rightarrow> kernel" where
  "sys_freeaddrinfo k = emit Freeaddrinfo (Ret 0) k"

subsection \<open>The secure channel (ssl.c, not part of the file)\<close>

text \<open>
  Modelled from the spec: \<^verbatim>\<open>ssl_connect\<close> of \<^verbatim>\<open>ssl.c\<close>. It performs the handshake over the
  connected descriptor; on failure it returns \<open>NULL\<close> with the reason in the message buffer
  and does not close the descriptor, which its caller owns.
\<close>

definition ssl_connect :: "world \<Rightarrow> int \<Rightarrow> string \<Rightarrow> string \<Rightarrow> kernel \<Rightarrow> nat option \<times> string \<times> kernel" where
  "ssl_connect w s hostname message k =
     (case ssl_reply w (now k) of
        Inl reason \<Rightarrow> (None, reason, emit (Ssl_connect s hostname) (Ret 0) k)
      | Inr session \<Rightarrow> (Some session, message, emit (Ssl_connect s hostname) (Ret 1) k))"

text \<open>
  Modelled from the spec: \<^verbatim>\<open>ssl_disconnect\<close> of \<^verbatim>\<open>ssl.c\<close>. It tears the secure session
  down. It is given the session only; the descriptor belongs to the connection, and the
  table of descriptors stays as it is.
\<close>

definition ssl_disconnect :: "nat \<Rightarrow> kernel \<Rightarrow> kernel" where
  "ssl_disconnect session k = emit (Ssl_disconnect session) (Ret 0) k"

subsection \<open>Formatting\<close>

fun digits_of :: "nat \<Rightarrow> string" where
  "digits_of n =
     (if n < 10 then [''0123456789'' ! n]
      else digits_of (n div 10) @ [''0123456789'' ! (n mod 10)])"

declare digits_of.simps [simp del]

text \<open>The conversions \<^verbatim>\<open>%d\<close> and \<^verbatim>\<open>%i\<close> of \<^verbatim>\<open>printf\<close>.\<close>

definition show_int :: "int \<Rightarrow> string" where
  "show_int i = (if i < 0 then CHR ''-'' # digits_of (nat (- i)) else digits_of (nat i))"

text \<open>
  \<^verbatim>\<open>tcp_error\<close> (lines 54-59) prints into the buffer; the result is the new content of the
  buffer. The message is the untranslated one (\<^verbatim>\<open>_()\<close> is the identity in the C locale).
\<close>

definition tcp_error :: "string \<Rightarrow> int \<Rightarrow> string \<Rightarrow> string" where
  "tcp_error hostname port reason =
     ''Unable to connect to server '' @ hostname @ '':'' @ show_int port @ '': '' @ reason
       @ [CHR 0x0A]"

subsection \<open>tcp_connect\<close>

text \<open>\<^verbatim>\<open>local_if && *local_if\<close>: the pointer is not \<open>NULL\<close> and the string is not empty.\<close>

definition given :: "string option \<Rightarrow> bool" where
  "given local_if = (case local_if of None \<Rightarrow> False | Some s \<Rightarrow> s \<noteq> [])"

text \<open>Lines 74-79: the address is zeroed, and filled in under the guard of line 75.\<close>

definition prepare_local_addr :: "world \<Rightarrow> tcp_t \<Rightarrow> string option \<Rightarrow> sockaddr_in" where
  "prepare_local_addr w tcp local_if =
     (if tcp_t.ai_family tcp = AF_INET \<and> given local_if
      then \<lparr>sin_family = AF_INET, sin_port = 0, sin_addr = inet_addr w (the local_if)\<rparr>
      else \<lparr>sin_family = 0, sin_port = 0, sin_addr = 0\<rparr>)"

text \<open>
  Lines 105-118, after a socket was created for the candidate \<open>c\<close>: the result is the
  descriptor (or \<open>-1\<close>), the candidates from the current one on, and the kernel.
\<close>

definition bind_step ::
  "world \<Rightarrow> string option \<Rightarrow> sockaddr_in \<Rightarrow> int \<Rightarrow> addrinfo \<Rightarrow> addrinfo list \<Rightarrow> kernel
    \<Rightarrow> int \<times> addrinfo list \<times> kernel" where
  "bind_step w local_if local_addr sock_fd c rest k =
     (if addrinfo.ai_family c = AF_INET \<and> given local_if then
        (case sys_bind w sock_fd local_addr k of
           (ret, k1) \<Rightarrow>
             if ret = - 1 then (- 1, rest, sys_close sock_fd k1)
             else (sock_fd, c # rest, k1))
      else (sock_fd, c # rest, k))"

text \<open>
  Lines 120-143. After a failed bind the list has advanced, and the block is guarded by
  \<open>sock_fd != -1\<close>; it runs with the current candidate \<open>c\<close>.
\<close>

definition connect_step ::
  "world \<Rightarrow> nat \<Rightarrow> int \<Rightarrow> addrinfo \<Rightarrow> addrinfo list \<Rightarrow> kernel \<Rightarrow> int \<times> addrinfo list \<times> kernel" where
  "connect_step w io_timeout sock_fd c rest k =
     (let k1 = (if io_timeout \<noteq> 0 then sys_fcntl_setfl sock_fd O_NONBLOCK k else k)
      in case sys_connect w sock_fd (ai_addr c) k1 of
           (ret, k2) \<Rightarrow>
             (case (if ret = - 1 \<and> errno k2 = EINPROGRESS
                    then sys_select w sock_fd io_timeout k2 else (ret, k2)) of
                (ret', k3) \<Rightarrow>
                  if ret' = - 1 then (- 1, rest, sys_close sock_fd k3)
                  else (sock_fd, c # rest, sys_fcntl_setfl sock_fd 0 k3)))"

text \<open>One run of the body of the loop (lines 99-144) with the current candidate \<open>c\<close>.\<close>

definition attempt ::
  "world \<Rightarrow> string option \<Rightarrow> sockaddr_in \<Rightarrow> nat \<Rightarrow> addrinfo \<Rightarrow> addrinfo list \<Rightarrow> kernel
    \<Rightarrow> int \<times> addrinfo list \<times> kernel" where
  "attempt w local_if local_addr io_timeout c rest k =
     (case sys_socket w (addrinfo.ai_family c) (ai_socktype c) (ai_protocol c) k of
        (sock_fd, k1) \<Rightarrow>
          if sock_fd \<noteq> - 1 then
            (case bind_step w local_if local_addr sock_fd c rest k1 of
               (sock_fd', gai_result, k2) \<Rightarrow>
                 if sock_fd' \<noteq> - 1 then connect_step w io_timeout sock_fd' c rest k2
                 else (sock_fd', gai_result, k2))
          else (sock_fd, c # rest, k1))"

text \<open>
  The loop of lines 97-145: \<^verbatim>\<open>while ((sock_fd == -1) && (gai_result != NULL))\<close>. The loop
  need not end, so the function is partial: \<open>None\<close> is a run that never leaves the loop.
\<close>

partial_function (option) connect_loop ::
  "world \<Rightarrow> string option \<Rightarrow> sockaddr_in \<Rightarrow> nat \<Rightarrow> int \<Rightarrow> addrinfo list \<Rightarrow> kernel
    \<Rightarrow> (int \<times> addrinfo list \<times> kernel) option" where
  "connect_loop w local_if local_addr io_timeout sock_fd gai_result k =
     (case gai_result of
        [] \<Rightarrow> Some (sock_fd, gai_result, k)
      | c # rest \<Rightarrow>
          if sock_fd = - 1 then
            connect_loop w local_if local_addr io_timeout
              (fst (attempt w local_if local_addr io_timeout c rest k))
              (fst (snd (attempt w local_if local_addr io_timeout c rest k)))
              (snd (snd (attempt w local_if local_addr io_timeout c rest k)))
          else Some (sock_fd, gai_result, k))"

text \<open>
  Lines 149-169, once the loop is left. \<open>have_ssl\<close> says whether the file is compiled with
  \<^verbatim>\<open>HAVE_SSL\<close>. The result is the return value, the connection record, the message buffer
  and the kernel.
\<close>

definition finish ::
  "world \<Rightarrow> bool \<Rightarrow> tcp_t \<Rightarrow> string \<Rightarrow> int \<Rightarrow> int \<Rightarrow> string \<Rightarrow> nat \<Rightarrow> int \<Rightarrow> kernel
    \<Rightarrow> int \<times> tcp_t \<times> string \<times> kernel" where
  "finish w have_ssl tcp hostname port secure message io_timeout sock_fd k =
     (if sock_fd = - 1 then (- 1, tcp, tcp_error hostname port (strerror w (errno k)), k)
      else if have_ssl \<and> secure \<noteq> 0 then
        (case ssl_connect w sock_fd hostname message k of
           (session, message', k1) \<Rightarrow>
             if session = None then (- 1, tcp\<lparr>ssl := session\<rparr>, message', sys_close sock_fd k1)
             else (1, tcp\<lparr>ssl := session, fd := sock_fd\<rparr>, message',
                   sys_setsockopt sock_fd SOL_SOCKET SO_SNDTIMEO io_timeout
                     (sys_setsockopt sock_fd SOL_SOCKET SO_RCVTIMEO io_timeout k1)))
      else (1, tcp\<lparr>fd := sock_fd\<rparr>, message,
            sys_setsockopt sock_fd SOL_SOCKET SO_SNDTIMEO io_timeout
              (sys_setsockopt sock_fd SOL_SOCKET SO_RCVTIMEO io_timeout k)))"

text \<open>
  \<^verbatim>\<open>tcp_connect\<close> (lines 62-170). \<open>local_if\<close> is a pointer that may be \<open>NULL\<close>; the port
  string is cut by \<^verbatim>\<open>snprintf\<close> to the nine characters the buffer holds.
\<close>

definition tcp_connect ::
  "world \<Rightarrow> bool \<Rightarrow> tcp_t \<Rightarrow> string \<Rightarrow> int \<Rightarrow> int \<Rightarrow> string option \<Rightarrow> string \<Rightarrow> nat \<Rightarrow> kernel
    \<Rightarrow> (int \<times> tcp_t \<times> string \<times> kernel) option" where
  "tcp_connect w have_ssl tcp hostname port secure local_if message io_timeout k =
     (let local_addr = prepare_local_addr w tcp local_if;
          portstr = take 9 (show_int port);
          ai_hints = \<lparr>ai_flags = AI_ADDRCONFIG, ai_family = tcp_t.ai_family tcp,
                      ai_socktype = SOCK_STREAM, ai_protocol = 0, ai_addr = []\<rparr>
      in case sys_getaddrinfo w hostname portstr ai_hints k of
           (ret, gai_results, k1) \<Rightarrow>
             if ret \<noteq> 0
             then Some (- 1, tcp, tcp_error hostname port (gai_strerror w ret), k1)
             else
               (case connect_loop w local_if local_addr io_timeout (- 1) gai_results k1 of
                  None \<Rightarrow> None
                | Some (sock_fd, gai_result, k2) \<Rightarrow>
                    Some (finish w have_ssl tcp hostname port secure message io_timeout sock_fd
                            (sys_freeaddrinfo k2))))"

subsection \<open>tcp_close\<close>

text \<open>\<^verbatim>\<open>tcp_close\<close> (lines 194-207).\<close>

definition tcp_close :: "bool \<Rightarrow> tcp_t \<times> kernel \<Rightarrow> tcp_t \<times> kernel" where
  "tcp_close have_ssl s =
     (case s of
        (tcp, k) \<Rightarrow>
          if fd tcp > 0 then
            (case (if have_ssl then ssl tcp else None) of
               Some session \<Rightarrow> (tcp\<lparr>ssl := None, fd := - 1\<rparr>, ssl_disconnect session k)
             | None \<Rightarrow> (tcp\<lparr>fd := - 1\<rparr>, sys_close (fd tcp) k))
          else (tcp, k))"

subsection \<open>get_if_ip\<close>

text \<open>
  \<^verbatim>\<open>get_if_ip\<close> (lines 209-232): the result is the return value, the content of the
  caller's buffer \<open>ip\<close> and the kernel.
\<close>

definition get_if_ip :: "world \<Rightarrow> string \<Rightarrow> string \<Rightarrow> kernel \<Rightarrow> int \<times> string \<times> kernel" where
  "get_if_ip w iface ip k =
     (case sys_socket w PF_INET SOCK_DGRAM IPPROTO_IP k of
        (s, k1) \<Rightarrow>
          if s < 0 then (0, ip, k1)
          else
            (case sys_ioctl_gifaddr w s (take (IFNAMSIZ - 1) iface) k1 of
               (r, addr, k2) \<Rightarrow>
                 (let ret = (if r = 0 then 1 else 0 :: int)
                  in (ret, if ret \<noteq> 0 then inet_ntoa w addr else ip, sys_close s k2))))"

subsection \<open>Notions used in the statements\<close>

text \<open>The code of the last call of a trace that failed, if one did.\<close>

fun last_error :: "(syscall \<times> result) list \<Rightarrow> int option" where
  "last_error [] = None"
| "last_error (x # xs) =
     (case last_error xs of
        Some e \<Rightarrow> Some e
      | None \<Rightarrow> (case snd x of Err e \<Rightarrow> Some e | Ret v \<Rightarrow> None))"

definition is_ssl_connect :: "syscall \<Rightarrow> bool" where
  "is_ssl_connect c = (case c of Ssl_connect s h \<Rightarrow> True | _ \<Rightarrow> False)"

definition is_select :: "syscall \<Rightarrow> bool" where
  "is_select c = (case c of Select s t \<Rightarrow> True | _ \<Rightarrow> False)"

definition sets_nonblock :: "syscall \<Rightarrow> bool" where
  "sets_nonblock c = (case c of Fcntl_setfl s flags \<Rightarrow> flags = O_NONBLOCK | _ \<Rightarrow> False)"

text \<open>
  The kernel \<open>k'\<close> is reached from \<open>k\<close> by calls that all satisfy \<open>P\<close>, and \<open>errno\<close>
  is the code of the last of them that failed (the old value when none did).
\<close>

definition advances :: "(syscall \<Rightarrow> bool) \<Rightarrow> kernel \<Rightarrow> kernel \<Rightarrow> bool" where
  "advances P k k' =
     (trace k' = trace k @ calls_since k k' \<and>
      list_all (\<lambda>x. P (fst x)) (calls_since k k') \<and>
      errno k' = (case last_error (calls_since k k') of Some e \<Rightarrow> e | None \<Rightarrow> errno k))"

subsection \<open>Example surroundings\<close>

text \<open>
  A process with the three standard descriptors open, two IPv4 candidates, and a world in
  which every call succeeds at once. The examples below change one reply at a time.
\<close>

definition process0 :: kernel where
  "process0 = \<lparr>open_fds = [0, 1, 2], nonblock = [], errno = 0, trace = []\<rparr>"

definition addr_A :: addrinfo where
  "addr_A = \<lparr>ai_flags = 0, ai_family = AF_INET, ai_socktype = SOCK_STREAM, ai_protocol = 6,
              ai_addr = ''192.0.2.1:80''\<rparr>"

definition addr_B :: addrinfo where
  "addr_B = \<lparr>ai_flags = 0, ai_family = AF_INET, ai_socktype = SOCK_STREAM, ai_protocol = 6,
              ai_addr = ''192.0.2.2:80''\<rparr>"

definition calm_world :: world where
  "calm_world =
     \<lparr>getaddrinfo = (\<lambda>node service hints. (0, [addr_A, addr_B])),
      gai_strerror = (\<lambda>rc. ''Name or service not known''),
      strerror = (\<lambda>e. if e = 111 then ''Connection refused'' else ''Unknown error''),
      inet_addr = (\<lambda>s. if s = ''192.168.1.5'' then 0x0501A8C0 else 0xFFFFFFFF),
      inet_ntoa = (\<lambda>a. ''192.168.1.5''),
      socket_reply = (\<lambda>t. None),
      bind_reply = (\<lambda>t. None),
      connect_reply = (\<lambda>t. At_once None),
      select_reply = (\<lambda>t. Ready),
      gifaddr_reply = (\<lambda>t name. if name = ''eth0'' then Inr 0x0501A8C0 else Inl 19),
      ssl_reply = (\<lambda>t. Inr 1)\<rparr>"

text \<open>The kernel after an attempt whose bind failed, and after a call whose handshake failed.\<close>

definition after_failed_bind :: kernel where
  "after_failed_bind =
     \<lparr>open_fds = [0, 1, 2], nonblock = [], errno = 99,
      trace =
        [(Socket 2 1 6, Ret 3),
         (Bind 3 \<lparr>sin_family = 2, sin_port = 0, sin_addr = 0x0501A8C0\<rparr>, Err 99),
         (Close 3, Ret 0)]\<rparr>"

definition after_failed_handshake :: kernel where
  "after_failed_handshake =
     \<lparr>open_fds = [0, 1, 2], nonblock = [], errno = 0,
      trace =
        [(Getaddrinfo ''example.org'' ''443''
           \<lparr>ai_flags = 32, ai_family = 0, ai_socktype = 1, ai_protocol = 0, ai_addr = []\<rparr>,
          Ret 0),
         (Socket 2 1 6, Ret 3), (Connect 3 ''192.0.2.1:80'', Ret 0),
         (Fcntl_setfl 3 0, Ret 0), (Freeaddrinfo, Ret 0),
         (Ssl_connect 3 ''example.org'', Ret 0), (Close 3, Ret 0)]\<rparr>"

definition tcp0 :: tcp_t where
  "tcp0 = \<lparr>fd = - 1, tcp_t.ai_family = AF_UNSPEC, ssl = None\<rparr>"

section \<open>Properties\<close>

subsection \<open>Evaluation\<close>

lemmas header_defs =
  AF_UNSPEC_def AF_INET_def PF_INET_def SOCK_STREAM_def SOCK_DGRAM_def IPPROTO_IP_def
  AI_ADDRCONFIG_def O_NONBLOCK_def SOL_SOCKET_def SO_RCVTIMEO_def SO_SNDTIMEO_def IFNAMSIZ_def
  EBADF_def EINPROGRESS_def

lemmas run_defs =
  tcp_connect_def finish_def attempt_def bind_step_def connect_step_def
  prepare_local_addr_def given_def tcp_error_def show_int_def digits_of.simps
  sys_socket_def sys_bind_def sys_connect_def conclude_def sys_select_def sys_close_def
  sys_fcntl_setfl_def sys_setsockopt_def sys_getaddrinfo_def sys_freeaddrinfo_def
  sys_ioctl_gifaddr_def ssl_connect_def ssl_disconnect_def
  fails_def returns_def emit_def now_def lowest_free_def Let_def
  process0_def addr_A_def addr_B_def calm_world_def tcp0_def header_defs

subsection \<open>New descriptors\<close>

lemma lowest_free_nonneg: "0 \<le> lowest_free fds"
proof (cases "filter (\<lambda>n. n \<notin> set fds) (map int [0..<Suc (length fds)])")
  case Nil
  then show ?thesis by (simp add: lowest_free_def)
next
  case (Cons n ns)
  then have "n \<in> set (filter (\<lambda>n. n \<notin> set fds) (map int [0..<Suc (length fds)]))"
    by simp
  then have "n \<in> int ` set [0..<Suc (length fds)]"
    by (simp only: set_filter set_map) blast
  then have "0 \<le> n" by (elim imageE) simp
  with Cons show ?thesis by (simp add: lowest_free_def)
qed

text \<open>Pigeonhole: among the first \<open>length fds + 1\<close> numbers one is not in \<open>fds\<close>.\<close>

lemma lowest_free_fresh: "lowest_free fds \<notin> set fds"
proof (cases "filter (\<lambda>n. n \<notin> set fds) (map int [0..<Suc (length fds)])")
  case Nil
  then have "\<forall>n \<in> set (map int [0..<Suc (length fds)]). n \<in> set fds"
    by (metis (mono_tags, lifting) filter_empty_conv)
  then have sub: "int ` {0..<Suc (length fds)} \<subseteq> set fds"
    unfolding set_map set_upt by blast
  have "card (int ` {0..<Suc (length fds)}) = Suc (length fds)"
    by (simp add: card_image)
  moreover have "card (int ` {0..<Suc (length fds)}) \<le> card (set fds)"
    using sub by (simp add: card_mono)
  moreover have "card (set fds) \<le> length fds"
    by (rule card_length)
  ultimately show ?thesis by simp
next
  case (Cons n ns)
  then have "n \<in> set (filter (\<lambda>n. n \<notin> set fds) (map int [0..<Suc (length fds)]))"
    by simp
  then have "n \<notin> set fds" by (simp only: set_filter) blast
  with Cons show ?thesis by (simp add: lowest_free_def)
qed

subsection \<open>An invariant rule for the loop\<close>

text \<open>
  Whatever holds when the loop is entered and is kept by one run of its body holds when the
  loop is left, and then the guard of line 97 is false.
\<close>

lemma connect_loop_rule:
  assumes run: "connect_loop w lif la tmo s g k = Some (s', g', k')"
    and init: "I s g k"
    and step: "\<And>c rest k s1 g1 k1. I (- 1) (c # rest) k \<Longrightarrow>
                 attempt w lif la tmo c rest k = (s1, g1, k1) \<Longrightarrow> I s1 g1 k1"
  shows "I s' g' k' \<and> (s' \<noteq> - 1 \<or> g' = [])"
proof -
  define P where "P = (\<lambda>w' lif' la' tmo' s g k y.
     w' = w \<and> lif' = lif \<and> la' = la \<and> tmo' = tmo \<and> I s g k \<longrightarrow>
       (case y of (s', g', k') \<Rightarrow> I s' g' k' \<and> (s' \<noteq> - 1 \<or> g' = [])))"
  have "P w lif la tmo s g k (s', g', k')"
  proof (rule connect_loop.raw_induct [where P = P, OF _ run], goal_cases)
    case (1 f w' lif' la' tmo' s g k y)
    show ?case
    proof (cases g)
      case Nil
      with 1(2) show ?thesis by (auto simp: P_def)
    next
      case (Cons c rest)
      show ?thesis
      proof (cases "s = - 1")
        case True
        obtain s1 g1 k1 where a: "attempt w' lif' la' tmo' c rest k = (s1, g1, k1)"
          by (cases "attempt w' lif' la' tmo' c rest k") auto
        from 1(2) Cons True a have "f w' lif' la' tmo' s1 g1 k1 = Some y"
          by simp
        from 1(1) [OF this] have "P w' lif' la' tmo' s1 g1 k1 y" .
        with step a True Cons show ?thesis
          unfolding P_def by blast
      next
        case False
        with 1(2) Cons show ?thesis by (auto simp: P_def)
      qed
    qed
  qed
  with init show ?thesis by (simp add: P_def)
qed

subsection \<open>The table of descriptors\<close>

lemma socket_open_fds:
  "sys_socket w d t p k = (s, k1) \<Longrightarrow>
     (s = - 1 \<and> open_fds k1 = open_fds k) \<or>
     (0 \<le> s \<and> s \<notin> set (open_fds k) \<and> open_fds k1 = s # open_fds k)"
  by (auto simp: sys_socket_def fails_def returns_def emit_def Let_def lowest_free_fresh
      lowest_free_nonneg split: option.splits)

lemma close_new_fd:
  "s \<notin> set fds \<Longrightarrow> open_fds k = s # fds \<Longrightarrow> open_fds (sys_close s k) = fds"
  by (simp add: sys_close_def emit_def)

lemma bind_open_fds: "sys_bind w s a k = (r, k1) \<Longrightarrow> open_fds k1 = open_fds k"
  by (auto simp: sys_bind_def fails_def returns_def emit_def split: option.splits)

lemma connect_open_fds: "sys_connect w s a k = (r, k1) \<Longrightarrow> open_fds k1 = open_fds k"
  by (auto simp: sys_connect_def conclude_def fails_def returns_def emit_def
      split: option.splits handshake.splits if_splits)

lemma select_open_fds: "sys_select w s t k = (r, k1) \<Longrightarrow> open_fds k1 = open_fds k"
  by (auto simp: sys_select_def fails_def returns_def emit_def split: readiness.splits)

lemma fcntl_open_fds: "open_fds (sys_fcntl_setfl s f k) = open_fds k"
  by (simp add: sys_fcntl_setfl_def emit_def)

lemma setsockopt_open_fds: "open_fds (sys_setsockopt s l n t k) = open_fds k"
  by (simp add: sys_setsockopt_def emit_def)

lemma freeaddrinfo_open_fds: "open_fds (sys_freeaddrinfo k) = open_fds k"
  by (simp add: sys_freeaddrinfo_def emit_def)

lemma getaddrinfo_open_fds: "sys_getaddrinfo w n s h k = (rc, res, k1) \<Longrightarrow> open_fds k1 = open_fds k"
  by (auto simp: sys_getaddrinfo_def emit_def split: prod.splits)

lemma ssl_connect_open_fds: "ssl_connect w s h m k = (r, m', k1) \<Longrightarrow> open_fds k1 = open_fds k"
  by (auto simp: ssl_connect_def emit_def split: sum.splits)

lemma bind_step_open_fds:
  assumes "bind_step w lif la s c rest k = (s', g, k')"
    and "open_fds k = s # F" and "s \<notin> set F" and "s \<noteq> - 1"
  shows "if s' = - 1 then open_fds k' = F else s' = s \<and> open_fds k' = s # F"
proof (cases "addrinfo.ai_family c = AF_INET \<and> given lif")
  case True
  obtain r k1 where b: "sys_bind w s la k = (r, k1)"
    by (cases "sys_bind w s la k")
  from bind_open_fds [OF b] assms(2) have "open_fds k1 = s # F" by simp
  from close_new_fd [OF assms(3) this] assms True b \<open>open_fds k1 = s # F\<close> show ?thesis
    by (auto simp: bind_step_def split: if_splits)
next
  case False
  with assms show ?thesis by (auto simp: bind_step_def)
qed

lemma connect_step_open_fds:
  assumes "connect_step w tmo s c rest k = (s', g, k')"
    and "open_fds k = s # F" and "s \<notin> set F" and "s \<noteq> - 1"
  shows "if s' = - 1 then open_fds k' = F else s' = s \<and> open_fds k' = s # F"
proof -
  define k1 where "k1 = (if tmo \<noteq> 0 then sys_fcntl_setfl s O_NONBLOCK k else k)"
  obtain r k2 where c: "sys_connect w s (ai_addr c) k1 = (r, k2)"
    by (cases "sys_connect w s (ai_addr c) k1")
  obtain r' k3 where s: "(if r = - 1 \<and> errno k2 = EINPROGRESS
                    then sys_select w s tmo k2 else (r, k2)) = (r', k3)"
    by (cases "(if r = - 1 \<and> errno k2 = EINPROGRESS
                    then sys_select w s tmo k2 else (r, k2))")
  have "open_fds k1 = s # F"
    using assms(2) by (simp add: k1_def fcntl_open_fds)
  with connect_open_fds [OF c] have "open_fds k2 = s # F" by simp
  with s have k3: "open_fds k3 = s # F"
    by (auto split: if_splits dest: select_open_fds)
  from assms(1) c s have "(s', g, k') = (if r' = - 1 then (- 1, rest, sys_close s k3)
                  else (s, c # rest, sys_fcntl_setfl s 0 k3))"
    by (simp add: connect_step_def k1_def Let_def)
  with close_new_fd [OF assms(3) k3] k3 assms(4) show ?thesis
    by (auto simp: fcntl_open_fds split: if_splits)
qed

lemma attempt_open_fds:
  assumes "attempt w lif la tmo c rest k = (s, g, k')"
  shows "if s = - 1 then open_fds k' = open_fds k
         else s \<notin> set (open_fds k) \<and> open_fds k' = s # open_fds k"
proof -
  obtain s0 k1 where so: "sys_socket w (addrinfo.ai_family c) (ai_socktype c) (ai_protocol c) k = (s0, k1)"
    by (cases "sys_socket w (addrinfo.ai_family c) (ai_socktype c) (ai_protocol c) k")
  show ?thesis
  proof (cases "s0 = - 1")
    case True
    with so socket_open_fds [OF so] assms show ?thesis
      by (auto simp: attempt_def)
  next
    case False
    with socket_open_fds [OF so]
    have fresh: "s0 \<notin> set (open_fds k)" and op: "open_fds k1 = s0 # open_fds k"
      by auto
    obtain s1 g1 k2 where b: "bind_step w lif la s0 c rest k1 = (s1, g1, k2)"
      by (cases "bind_step w lif la s0 c rest k1") auto
    note bs = bind_step_open_fds [OF b op fresh False]
    show ?thesis
    proof (cases "s1 = - 1")
      case True
      with bs so False b assms show ?thesis by (auto simp: attempt_def)
    next
      case s1: False
      with bs have eq: "s1 = s0" and op2: "open_fds k2 = s0 # open_fds k" by auto
      from assms so False b s1 eq have "connect_step w tmo s0 c rest k2 = (s, g, k')"
        by (simp add: attempt_def)
      from connect_step_open_fds [OF this op2 fresh False] fresh show ?thesis
        by (auto split: if_splits)
    qed
  qed
qed

lemma connect_loop_open_fds:
  assumes "connect_loop w lif la tmo (- 1) g k = Some (s', g', k')"
  shows "if s' = - 1 then open_fds k' = open_fds k
         else s' \<notin> set (open_fds k) \<and> open_fds k' = s' # open_fds k"
proof -
  define I where "I = (\<lambda>s (g :: addrinfo list) (k1 :: kernel). if s = - 1 then open_fds k1 = open_fds k
         else s \<notin> set (open_fds k) \<and> open_fds k1 = s # open_fds k)"
  have "I s' g' k' \<and> (s' \<noteq> - 1 \<or> g' = [])"
  proof (rule connect_loop_rule [OF assms, where I = I])
    show "I (- 1) g k" by (simp add: I_def)
  next
    fix c rest k0 s1 g1 k1
    assume "I (- 1) (c # rest) k0" and "attempt w lif la tmo c rest k0 = (s1, g1, k1)"
    with attempt_open_fds [of w lif la tmo c rest k0 s1 g1 k1] show "I s1 g1 k1"
      by (auto simp: I_def split: if_splits)
  qed
  then show ?thesis by (simp add: I_def)
qed

lemma tcp_connect_open_fds:
  assumes "tcp_connect w have_ssl tcp hostname port secure local_if message io_timeout k
             = Some (r, tcp', message', k')"
  shows "open_fds k' = (if r = - 1 then open_fds k else fd tcp' # open_fds k)"
proof -
  define hints where "hints = \<lparr>ai_flags = AI_ADDRCONFIG, ai_family = tcp_t.ai_family tcp,
                      ai_socktype = SOCK_STREAM, ai_protocol = 0, ai_addr = []\<rparr>"
  obtain rc cands k1
    where ga: "sys_getaddrinfo w hostname (take 9 (show_int port)) hints k = (rc, cands, k1)"
    by (cases "sys_getaddrinfo w hostname (take 9 (show_int port)) hints k") auto
  note k1 = getaddrinfo_open_fds [OF ga]
  show ?thesis
  proof (cases "rc = 0")
    case False
    with assms ga k1 show ?thesis by (auto simp: tcp_connect_def Let_def hints_def)
  next
    case True
    with assms ga obtain s g k2 where
      loop: "connect_loop w local_if (prepare_local_addr w tcp local_if) io_timeout (- 1) cands k1
               = Some (s, g, k2)"
      and fin: "finish w have_ssl tcp hostname port secure message io_timeout s
                  (sys_freeaddrinfo k2) = (r, tcp', message', k')"
      by (auto simp: tcp_connect_def Let_def hints_def split: option.splits)
    note l = connect_loop_open_fds [OF loop]
    show ?thesis
    proof (cases "s = - 1")
      case True
      with l fin k1 show ?thesis by (auto simp: finish_def freeaddrinfo_open_fds)
    next
      case False
      with l k1 have fresh: "s \<notin> set (open_fds k)"
        and op: "open_fds (sys_freeaddrinfo k2) = s # open_fds k"
        by (auto simp: freeaddrinfo_open_fds)
      show ?thesis
      proof (cases "have_ssl \<and> secure \<noteq> 0")
        case plain: False
        with fin False op show ?thesis
          by (auto simp: finish_def setsockopt_open_fds)
      next
        case True
        obtain session m1 k3
          where sc: "ssl_connect w s hostname message (sys_freeaddrinfo k2) = (session, m1, k3)"
          by (cases "ssl_connect w s hostname message (sys_freeaddrinfo k2)") auto
        from ssl_connect_open_fds [OF sc] op have op3: "open_fds k3 = s # open_fds k" by simp
        from fin False True sc close_new_fd [OF fresh op3] op3 show ?thesis
          by (auto simp: finish_def setsockopt_open_fds split: if_splits)
      qed
    qed
  qed
qed

lemma ioctl_open_fds:
  "sys_ioctl_gifaddr w s n k = (r, a, k1) \<Longrightarrow> open_fds k1 = open_fds k"
  by (auto simp: sys_ioctl_gifaddr_def fails_def returns_def emit_def split: sum.splits)

subsection \<open>The trace and errno\<close>

lemma last_error_append:
  "last_error (xs @ ys) = (case last_error ys of Some e \<Rightarrow> Some e | None \<Rightarrow> last_error xs)"
  by (induction xs) (auto split: option.splits result.splits)

lemma advances_refl: "advances P k k"
  by (simp add: advances_def calls_since_def)

lemma calls_since_trans:
  assumes "trace k1 = trace k @ calls_since k k1" and "trace k2 = trace k1 @ calls_since k1 k2"
  shows "calls_since k k2 = calls_since k k1 @ calls_since k1 k2"
proof -
  have "trace k2 = trace k @ (calls_since k k1 @ calls_since k1 k2)"
    using assms by simp
  then have "drop (length (trace k)) (trace k2) = calls_since k k1 @ calls_since k1 k2"
    by simp
  then show ?thesis by (simp add: calls_since_def)
qed

lemma advances_trans:
  assumes "advances P k k1" and "advances P k1 k2"
  shows "advances P k k2"
proof -
  from assms have cs: "calls_since k k2 = calls_since k k1 @ calls_since k1 k2"
    by (intro calls_since_trans) (simp_all add: advances_def)
  from assms have "trace k2 = trace k @ calls_since k k1 @ calls_since k1 k2"
    by (simp add: advances_def)
  with assms cs show ?thesis
    by (auto simp: advances_def last_error_append split: option.splits)
qed

lemma advances_one:
  assumes "trace k1 = trace k @ [(c, r)]" and "P c"
    and "errno k1 = (case r of Err e \<Rightarrow> e | Ret v \<Rightarrow> errno k)"
  shows "advances P k k1"
  using assms by (auto simp: advances_def calls_since_def split: result.splits)

lemma socket_advances:
  "P (Socket d t p) \<Longrightarrow> sys_socket w d t p k = (s, k1) \<Longrightarrow> advances P k k1"
  by (auto simp: sys_socket_def fails_def returns_def emit_def Let_def
      split: option.splits intro!: advances_one [where c = "Socket d t p"])

lemma bind_advances:
  "P (Bind s a) \<Longrightarrow> sys_bind w s a k = (r, k1) \<Longrightarrow> advances P k k1"
  by (auto simp: sys_bind_def fails_def returns_def emit_def
      split: option.splits intro!: advances_one [where c = "Bind s a"])

lemma connect_advances:
  "P (Connect s a) \<Longrightarrow> sys_connect w s a k = (r, k1) \<Longrightarrow> advances P k k1"
  by (auto simp: sys_connect_def conclude_def fails_def returns_def emit_def
      split: option.splits handshake.splits if_splits intro!: advances_one [where c = "Connect s a"])

lemma select_advances:
  "P (Select s t) \<Longrightarrow> sys_select w s t k = (r, k1) \<Longrightarrow> advances P k k1"
  by (auto simp: sys_select_def fails_def returns_def emit_def
      split: readiness.splits intro!: advances_one [where c = "Select s t"])

lemma close_advances: "P (Close s) \<Longrightarrow> advances P k (sys_close s k)"
  by (auto simp: sys_close_def fails_def emit_def intro!: advances_one [where c = "Close s"])

lemma fcntl_advances: "P (Fcntl_setfl s f) \<Longrightarrow> advances P k (sys_fcntl_setfl s f k)"
  by (auto simp: sys_fcntl_setfl_def emit_def intro!: advances_one [where c = "Fcntl_setfl s f"])

lemma setsockopt_advances:
  "P (Setsockopt s l n t) \<Longrightarrow> advances P k (sys_setsockopt s l n t k)"
  by (auto simp: sys_setsockopt_def emit_def intro!: advances_one [where c = "Setsockopt s l n t"])

lemma freeaddrinfo_advances: "P Freeaddrinfo \<Longrightarrow> advances P k (sys_freeaddrinfo k)"
  by (auto simp: sys_freeaddrinfo_def emit_def intro!: advances_one [where c = Freeaddrinfo])

lemma getaddrinfo_advances:
  "P (Getaddrinfo n s h) \<Longrightarrow> sys_getaddrinfo w n s h k = (rc, res, k1) \<Longrightarrow> advances P k k1"
  by (auto simp: sys_getaddrinfo_def emit_def split: prod.splits
      intro!: advances_one [where c = "Getaddrinfo n s h"])

lemma bind_step_advances:
  assumes "bind_step w lif la s c rest k = (s', g, k')"
    and "P (Bind s la)" and "P (Close s)"
  shows "advances P k k'"
proof (cases "addrinfo.ai_family c = AF_INET \<and> given lif")
  case True
  obtain r k1 where b: "sys_bind w s la k = (r, k1)"
    by (cases "sys_bind w s la k")
  note b1 = bind_advances [where P = P, OF assms(2) b]
  have "advances P k (sys_close s k1)"
    using b1 close_advances [where P = P, OF assms(3)] by (rule advances_trans)
  with b1 assms(1) True b show ?thesis
    by (auto simp: bind_step_def split: if_splits)
next
  case False
  with assms(1) show ?thesis by (auto simp: bind_step_def advances_refl)
qed

lemma connect_step_advances:
  assumes "connect_step w tmo s c rest k = (s', g, k')"
    and "tmo \<noteq> 0 \<Longrightarrow> P (Fcntl_setfl s O_NONBLOCK)" and "P (Fcntl_setfl s 0)"
    and "P (Connect s (ai_addr c))" and "P (Close s)"
    and sel: "\<And>r k2. sys_connect w s (ai_addr c)
                 (if tmo \<noteq> 0 then sys_fcntl_setfl s O_NONBLOCK k else k) = (r, k2) \<Longrightarrow>
               r = - 1 \<Longrightarrow> errno k2 = EINPROGRESS \<Longrightarrow> P (Select s tmo)"
  shows "advances P k k'"
proof -
  define k1 where "k1 = (if tmo \<noteq> 0 then sys_fcntl_setfl s O_NONBLOCK k else k)"
  obtain r k2 where c: "sys_connect w s (ai_addr c) k1 = (r, k2)"
    by (cases "sys_connect w s (ai_addr c) k1")
  obtain r' k3 where s: "(if r = - 1 \<and> errno k2 = EINPROGRESS
                    then sys_select w s tmo k2 else (r, k2)) = (r', k3)"
    by (cases "(if r = - 1 \<and> errno k2 = EINPROGRESS
                    then sys_select w s tmo k2 else (r, k2))")
  have a1: "advances P k k1"
    using assms(2) by (auto simp: k1_def advances_refl fcntl_advances)
  have a2: "advances P k1 k2"
    using connect_advances [where P = P, OF assms(4) c] .
  have a3: "advances P k2 k3"
  proof (cases "r = - 1 \<and> errno k2 = EINPROGRESS")
    case True
    with sel c have "P (Select s tmo)" by (simp add: k1_def)
    with s True show ?thesis by (auto intro: select_advances)
  next
    case False
    with s show ?thesis by (auto simp: advances_refl)
  qed
  have a: "advances P k k3"
    using a1 a2 a3 by (blast intro: advances_trans)
  from assms(1) c s have "k' = (if r' = - 1 then sys_close s k3 else sys_fcntl_setfl s 0 k3)"
    by (simp add: connect_step_def k1_def Let_def split: if_splits)
  moreover have "advances P k3 (sys_close s k3)" "advances P k3 (sys_fcntl_setfl s 0 k3)"
    using assms(3,5) by (simp_all add: close_advances fcntl_advances)
  ultimately show ?thesis
    using a by (auto intro: advances_trans)
qed


lemma calls_since_extend:
  assumes "trace k1 = trace k @ calls_since k k1" and "trace k2 = trace k1 @ new"
  shows "calls_since k k2 = calls_since k k1 @ new"
proof -
  have "trace k2 = trace k @ (calls_since k k1 @ new)"
    using assms by simp
  then have "drop (length (trace k)) (trace k2) = calls_since k k1 @ new"
    by simp
  then show ?thesis by (simp add: calls_since_def)
qed

lemma close_trace: "\<exists>x. trace (sys_close s k) = trace k @ [x]"
  by (simp add: sys_close_def fails_def emit_def)

subsection \<open>Blocking mode\<close>

lemma socket_blocking:
  "sys_socket w d t p k = (s, k1) \<Longrightarrow> s \<noteq> - 1 \<Longrightarrow> s \<notin> set (nonblock k1)"
  by (auto simp: sys_socket_def fails_def returns_def emit_def Let_def split: option.splits)

lemma bind_step_nonblock:
  "bind_step w lif la s c rest k = (s', g, k') \<Longrightarrow> s' \<noteq> - 1 \<Longrightarrow>
     s' = s \<and> nonblock k' = nonblock k"
  by (auto simp: bind_step_def sys_bind_def fails_def returns_def emit_def
      split: if_splits option.splits prod.splits)

lemma blocking_connect_not_in_progress:
  assumes "\<forall>t. connect_reply w t \<noteq> At_once (Some EINPROGRESS) \<and>
               connect_reply w t \<noteq> Later (Some EINPROGRESS)"
    and "s \<notin> set (nonblock k)" and "sys_connect w s a k = (r, k2)" and "r = - 1"
  shows "errno k2 \<noteq> EINPROGRESS"
proof -
  from assms(1) have 1: "connect_reply w (now k) \<noteq> At_once (Some EINPROGRESS)"
    and 2: "connect_reply w (now k) \<noteq> Later (Some EINPROGRESS)" by auto
  with assms(2-) show ?thesis
    by (auto simp: sys_connect_def conclude_def fails_def returns_def emit_def
        split: handshake.splits option.splits)
qed

subsection \<open>The calls of a whole run\<close>

lemma attempt_advances:
  assumes att: "attempt w lif la tmo c rest k = (s, g, k')"
    and P: "\<And>d t p. P (Socket d t p)" "\<And>s a. P (Bind s a)" "\<And>s. P (Close s)"
      "\<And>s a. P (Connect s a)" "\<And>s. P (Fcntl_setfl s 0)"
      "\<And>s. tmo \<noteq> 0 \<Longrightarrow> P (Fcntl_setfl s O_NONBLOCK)"
    and sel: "\<And>s k r k2. s \<notin> set (nonblock k) \<Longrightarrow>
               sys_connect w s (ai_addr c)
                 (if tmo \<noteq> 0 then sys_fcntl_setfl s O_NONBLOCK k else k) = (r, k2) \<Longrightarrow>
               r = - 1 \<Longrightarrow> errno k2 = EINPROGRESS \<Longrightarrow> P (Select s tmo)"
  shows "advances P k k'"
proof -
  obtain s0 k1
    where so: "sys_socket w (addrinfo.ai_family c) (ai_socktype c) (ai_protocol c) k = (s0, k1)"
    by (cases "sys_socket w (addrinfo.ai_family c) (ai_socktype c) (ai_protocol c) k")
  have a1: "advances P k k1"
    using socket_advances [where P = P, OF P(1) so] .
  show ?thesis
  proof (cases "s0 = - 1")
    case True
    with att so a1 show ?thesis by (simp add: attempt_def)
  next
    case False
    obtain s1 g1 k2 where b: "bind_step w lif la s0 c rest k1 = (s1, g1, k2)"
      by (cases "bind_step w lif la s0 c rest k1") auto
    have a2: "advances P k1 k2"
      using bind_step_advances [where P = P, OF b P(2) P(3)] .
    show ?thesis
    proof (cases "s1 = - 1")
      case True
      with att so False b have "k' = k2" by (simp add: attempt_def)
      with a1 a2 show ?thesis by (blast intro: advances_trans)
    next
      case s1: False
      from bind_step_nonblock [OF b s1] socket_blocking [OF so False]
      have eq: "s1 = s0" and nb: "s0 \<notin> set (nonblock k2)" by auto
      from att so False b s1 eq have cs: "connect_step w tmo s0 c rest k2 = (s, g, k')"
        by (simp add: attempt_def)
      have "advances P k2 k'"
        by (rule connect_step_advances [where P = P, OF cs]) (auto intro: P sel [OF nb])
      with a1 a2 show ?thesis by (blast intro: advances_trans)
    qed
  qed
qed

lemma connect_loop_advances:
  assumes run: "connect_loop w lif la tmo s g k = Some (s', g', k')"
    and P: "\<And>d t p. P (Socket d t p)" "\<And>s a. P (Bind s a)" "\<And>s. P (Close s)"
      "\<And>s a. P (Connect s a)" "\<And>s. P (Fcntl_setfl s 0)"
      "\<And>s. tmo \<noteq> 0 \<Longrightarrow> P (Fcntl_setfl s O_NONBLOCK)"
    and sel: "\<And>s a k r k2. s \<notin> set (nonblock k) \<Longrightarrow>
               sys_connect w s a
                 (if tmo \<noteq> 0 then sys_fcntl_setfl s O_NONBLOCK k else k) = (r, k2) \<Longrightarrow>
               r = - 1 \<Longrightarrow> errno k2 = EINPROGRESS \<Longrightarrow> P (Select s tmo)"
  shows "advances P k k'"
proof -
  define I where "I = (\<lambda>(s :: int) (g :: addrinfo list) k1. advances P k k1)"
  have "I s' g' k' \<and> (s' \<noteq> - 1 \<or> g' = [])"
  proof (rule connect_loop_rule [OF run, where I = I])
    show "I s g k" by (simp add: I_def advances_refl)
  next
    fix c rest k0 s1 g1 k1
    assume "I (- 1) (c # rest) k0" and a: "attempt w lif la tmo c rest k0 = (s1, g1, k1)"
    moreover have "advances P k0 k1"
      by (rule attempt_advances [where P = P, OF a]) (auto intro: P sel)
    ultimately show "I s1 g1 k1"
      unfolding I_def by (blast intro: advances_trans)
  qed
  then show ?thesis by (simp add: I_def)
qed


lemma ssl_connect_trace:
  "ssl_connect w s h m k = (r, m', k1) \<Longrightarrow>
     \<exists>res. trace k1 = trace k @ [(Ssl_connect s h, res)]"
  by (auto simp: ssl_connect_def emit_def split: sum.splits)

lemma ssl_connect_advances:
  "ssl_connect w s h m k = (r, m', k1) \<Longrightarrow> P (Ssl_connect s h) \<Longrightarrow> advances P k k1"
  by (auto simp: ssl_connect_def emit_def split: sum.splits
      intro!: advances_one [where c = "Ssl_connect s h"])

lemma finish_advances:
  assumes "finish w have_ssl tcp hostname port secure message tmo s k = (r, tcp', message', k')"
    and "\<And>s h. P (Ssl_connect s h)" "\<And>s. P (Close s)" "\<And>s l n t. P (Setsockopt s l n t)"
  shows "advances P k k'"
proof (cases "s \<noteq> - 1 \<and> have_ssl \<and> secure \<noteq> 0")
  case True
  obtain session m1 k1 where sc: "ssl_connect w s hostname message k = (session, m1, k1)"
    by (cases "ssl_connect w s hostname message k") auto
  have a: "advances P k k1"
    using ssl_connect_advances [where P = P, OF sc assms(2)] .
  have "advances P k1 (sys_close s k1)"
    using assms(3) by (rule close_advances)
  moreover have "advances P k1 (sys_setsockopt s SOL_SOCKET SO_SNDTIMEO tmo
                     (sys_setsockopt s SOL_SOCKET SO_RCVTIMEO tmo k1))"
    by (blast intro: advances_trans setsockopt_advances assms(4))
  ultimately show ?thesis
    using assms(1) True sc a by (auto simp: finish_def split: if_splits intro: advances_trans)
next
  case False
  have "advances P k (sys_setsockopt s SOL_SOCKET SO_SNDTIMEO tmo
                     (sys_setsockopt s SOL_SOCKET SO_RCVTIMEO tmo k))"
    by (blast intro: advances_trans setsockopt_advances assms(4))
  with assms(1) False show ?thesis
    by (auto simp: finish_def advances_refl split: if_splits)
qed

lemma tcp_connect_advances:
  assumes run: "tcp_connect w have_ssl tcp hostname port secure local_if message tmo k
                  = Some (r, tcp', message', k')"
    and P: "\<And>d t p. P (Socket d t p)" "\<And>s a. P (Bind s a)" "\<And>s. P (Close s)"
      "\<And>s a. P (Connect s a)" "\<And>s. P (Fcntl_setfl s 0)"
      "\<And>s. tmo \<noteq> 0 \<Longrightarrow> P (Fcntl_setfl s O_NONBLOCK)"
    and sel: "\<And>s a k r k2. s \<notin> set (nonblock k) \<Longrightarrow>
               sys_connect w s a
                 (if tmo \<noteq> 0 then sys_fcntl_setfl s O_NONBLOCK k else k) = (r, k2) \<Longrightarrow>
               r = - 1 \<Longrightarrow> errno k2 = EINPROGRESS \<Longrightarrow> P (Select s tmo)"
    and Q: "\<And>n s h. P (Getaddrinfo n s h)" "P Freeaddrinfo" "\<And>s h. P (Ssl_connect s h)"
       "\<And>s l n t. P (Setsockopt s l n t)"
  shows "advances P k k'"
proof -
  define hints where "hints = \<lparr>ai_flags = AI_ADDRCONFIG, ai_family = tcp_t.ai_family tcp,
                      ai_socktype = SOCK_STREAM, ai_protocol = 0, ai_addr = []\<rparr>"
  obtain rc cands k1
    where ga: "sys_getaddrinfo w hostname (take 9 (show_int port)) hints k = (rc, cands, k1)"
    by (cases "sys_getaddrinfo w hostname (take 9 (show_int port)) hints k") auto
  have a1: "advances P k k1"
    using getaddrinfo_advances [where P = P, OF Q(1) ga] .
  show ?thesis
  proof (cases "rc = 0")
    case False
    with run ga a1 show ?thesis by (auto simp: tcp_connect_def Let_def hints_def)
  next
    case True
    with run ga obtain s g k2 where
      loop: "connect_loop w local_if (prepare_local_addr w tcp local_if) tmo (- 1) cands k1
               = Some (s, g, k2)"
      and fin: "finish w have_ssl tcp hostname port secure message tmo s
                  (sys_freeaddrinfo k2) = (r, tcp', message', k')"
      by (auto simp: tcp_connect_def Let_def hints_def split: option.splits)
    have a2: "advances P k1 k2"
      by (rule connect_loop_advances [where P = P, OF loop]) (auto intro: P sel)
    have a3: "advances P k2 (sys_freeaddrinfo k2)"
      using Q(2) by (rule freeaddrinfo_advances)
    have a4: "advances P (sys_freeaddrinfo k2) k'"
      by (rule finish_advances [where P = P, OF fin]) (auto intro: P Q)
    from a1 a2 a3 a4 show ?thesis by (blast intro: advances_trans)
  qed
qed

lemma attempt_slow_success:
  assumes "\<forall>t. socket_reply w t = None \<and> bind_reply w t = None \<and> connect_reply w t = Later None"
  shows "\<exists>k'. attempt w lif la 0 c rest k = (lowest_free (open_fds k), c # rest, k')"
proof -
  have ne: "lowest_free (open_fds k) \<noteq> - 1"
    using lowest_free_nonneg [of "open_fds k"] by simp
  from assms have r: "\<And>t. socket_reply w t = None" "\<And>t. bind_reply w t = None"
    "\<And>t. connect_reply w t = Later None" by auto
  show ?thesis
    by (simp add: attempt_def bind_step_def connect_step_def sys_socket_def sys_bind_def
        sys_connect_def conclude_def sys_fcntl_setfl_def fails_def returns_def emit_def
        Let_def r ne)
qed

subsection \<open>A failed attempt leaves a failed call in the trace\<close>

lemma erred_left:
  assumes "advances P k k1" and "advances P k1 k2" and "last_error (calls_since k k1) \<noteq> None"
  shows "last_error (calls_since k k2) \<noteq> None"
proof -
  from assms(1,2) have "calls_since k k2 = calls_since k k1 @ calls_since k1 k2"
    by (intro calls_since_trans) (simp_all add: advances_def)
  with assms(3) show ?thesis
    by (auto simp: last_error_append split: option.splits)
qed

lemma erred_right:
  assumes "advances P k k1" and "advances P k1 k2" and "last_error (calls_since k1 k2) \<noteq> None"
  shows "last_error (calls_since k k2) \<noteq> None"
proof -
  from assms(1,2) have "calls_since k k2 = calls_since k k1 @ calls_since k1 k2"
    by (intro calls_since_trans) (simp_all add: advances_def)
  with assms(3) show ?thesis
    by (auto simp: last_error_append split: option.splits)
qed

lemma socket_erred:
  "sys_socket w d t p k = (s, k1) \<Longrightarrow> s = - 1 \<Longrightarrow> last_error (calls_since k k1) \<noteq> None"
  using lowest_free_nonneg [of "open_fds k"]
  by (auto simp: sys_socket_def fails_def returns_def emit_def Let_def calls_since_def
      split: option.splits)

lemma bind_erred:
  "sys_bind w s a k = (r, k1) \<Longrightarrow> r = - 1 \<Longrightarrow> last_error (calls_since k k1) \<noteq> None"
  by (auto simp: sys_bind_def fails_def returns_def emit_def calls_since_def
      split: option.splits)

lemma connect_erred:
  "sys_connect w s a k = (r, k1) \<Longrightarrow> r = - 1 \<Longrightarrow> last_error (calls_since k k1) \<noteq> None"
  by (auto simp: sys_connect_def conclude_def fails_def returns_def emit_def calls_since_def
      split: option.splits handshake.splits if_splits)

lemma bind_step_erred:
  assumes "bind_step w lif la s c rest k = (s', g, k')" and "s \<noteq> - 1" and "s' = - 1"
  shows "last_error (calls_since k k') \<noteq> None"
proof -
  from assms have on: "addrinfo.ai_family c = AF_INET \<and> given lif"
    by (auto simp: bind_step_def split: if_splits)
  obtain r k1 where b: "sys_bind w s la k = (r, k1)"
    by (cases "sys_bind w s la k")
  with assms on have r: "r = - 1" and k': "k' = sys_close s k1"
    by (auto simp: bind_step_def split: if_splits)
  have "advances (\<lambda>c. True) k k1"
    by (rule bind_advances [OF _ b]) simp
  moreover have "advances (\<lambda>c. True) k1 (sys_close s k1)"
    by (rule close_advances) simp
  ultimately show ?thesis
    unfolding k' using bind_erred [OF b r] by (rule erred_left)
qed

lemma connect_step_erred:
  assumes "connect_step w tmo s c rest k = (s', g, k')" and "s \<noteq> - 1" and "s' = - 1"
  shows "last_error (calls_since k k') \<noteq> None"
proof -
  define k1 where "k1 = (if tmo \<noteq> 0 then sys_fcntl_setfl s O_NONBLOCK k else k)"
  obtain r k2 where c: "sys_connect w s (ai_addr c) k1 = (r, k2)"
    by (cases "sys_connect w s (ai_addr c) k1")
  obtain r' k3 where s: "(if r = - 1 \<and> errno k2 = EINPROGRESS
                    then sys_select w s tmo k2 else (r, k2)) = (r', k3)"
    by (cases "(if r = - 1 \<and> errno k2 = EINPROGRESS
                    then sys_select w s tmo k2 else (r, k2))")
  from assms c s have r': "r' = - 1" and k': "k' = sys_close s k3"
    by (auto simp: connect_step_def k1_def Let_def split: if_splits)
  have a1: "advances (\<lambda>c. True) k k1"
    by (auto simp: k1_def advances_refl fcntl_advances)
  have a2: "advances (\<lambda>c. True) k1 k2"
    by (rule connect_advances [OF _ c]) simp
  have a3: "advances (\<lambda>c. True) k2 k3"
    using s by (auto simp: advances_refl split: if_splits intro: select_advances)
  have a4: "advances (\<lambda>c. True) k3 k'"
    unfolding k' by (rule close_advances) simp
  have r: "r = - 1"
    using s r' by (auto split: if_splits)
  have "last_error (calls_since k1 k2) \<noteq> None"
    using connect_erred [OF c r] .
  with a1 a2 have "last_error (calls_since k k2) \<noteq> None"
    by (rule erred_right)
  with advances_trans [OF a1 a2] a3 have "last_error (calls_since k k3) \<noteq> None"
    by (rule erred_left)
  with advances_trans [OF advances_trans [OF a1 a2] a3] a4 show ?thesis
    by (rule erred_left)
qed

lemma attempt_erred:
  assumes att: "attempt w lif la tmo c rest k = (s, g, k')" and "s = - 1"
  shows "last_error (calls_since k k') \<noteq> None"
proof -
  obtain s0 k1
    where so: "sys_socket w (addrinfo.ai_family c) (ai_socktype c) (ai_protocol c) k = (s0, k1)"
    by (cases "sys_socket w (addrinfo.ai_family c) (ai_socktype c) (ai_protocol c) k")
  have a1: "advances (\<lambda>c. True) k k1"
    by (rule socket_advances [OF _ so]) simp
  show ?thesis
  proof (cases "s0 = - 1")
    case True
    with att so have "k' = k1" by (simp add: attempt_def)
    with socket_erred [OF so True] show ?thesis by simp
  next
    case False
    obtain s1 g1 k2 where b: "bind_step w lif la s0 c rest k1 = (s1, g1, k2)"
      by (cases "bind_step w lif la s0 c rest k1") auto
    have a2: "advances (\<lambda>c. True) k1 k2"
      by (rule bind_step_advances [OF b]) simp_all
    show ?thesis
    proof (cases "s1 = - 1")
      case True
      with att so False b have "k' = k2" by (simp add: attempt_def)
      with erred_right [OF a1 a2 bind_step_erred [OF b False True]] show ?thesis by simp
    next
      case s1: False
      from bind_step_nonblock [OF b s1] have eq: "s1 = s0" by simp
      from att so False b s1 eq have cs: "connect_step w tmo s0 c rest k2 = (s, g, k')"
        by (simp add: attempt_def)
      have a3: "advances (\<lambda>c. True) k2 k'"
        by (rule connect_step_advances [OF cs]) simp_all
      from erred_right [OF advances_trans [OF a1 a2] a3 connect_step_erred [OF cs False assms(2)]]
      show ?thesis .
    qed
  qed
qed

text \<open>When the loop is left without a socket, a call has failed.\<close>

lemma connect_loop_erred:
  assumes run: "connect_loop w lif la tmo (- 1) g k = Some (s', g', k')"
    and "s' = - 1" and "g \<noteq> []"
  shows "last_error (calls_since k k') \<noteq> None"
proof -
  define I where "I = (\<lambda>(s :: int) (g1 :: addrinfo list) k1.
     advances (\<lambda>c. True) k k1 \<and> (s = - 1 \<longrightarrow> g1 = g \<or> last_error (calls_since k k1) \<noteq> None))"
  have "I s' g' k' \<and> (s' \<noteq> - 1 \<or> g' = [])"
  proof (rule connect_loop_rule [OF run, where I = I])
    show "I (- 1) g k" by (simp add: I_def advances_refl)
  next
    fix c rest k0 s1 g1 k1
    assume i: "I (- 1) (c # rest) k0" and a: "attempt w lif la tmo c rest k0 = (s1, g1, k1)"
    have step: "advances (\<lambda>c. True) k0 k1"
      by (rule attempt_advances [OF a]) simp_all
    from i have a0: "advances (\<lambda>c. True) k k0" by (simp add: I_def)
    have "s1 = - 1 \<longrightarrow> last_error (calls_since k k1) \<noteq> None"
      using erred_right [OF a0 step] attempt_erred [OF a] by blast
    with advances_trans [OF a0 step] show "I s1 g1 k1"
      by (simp add: I_def)
  qed
  with assms(2,3) show ?thesis by (auto simp: I_def)
qed

subsection \<open>A loop that is never left\<close>

lemma stuck_loop:
  assumes "\<forall>t. socket_reply w t \<noteq> None"
  shows "connect_loop w lif la tmo (- 1) (c # cs) k = None"
proof (rule ccontr)
  assume "connect_loop w lif la tmo (- 1) (c # cs) k \<noteq> None"
  then obtain s' g' k' where run: "connect_loop w lif la tmo (- 1) (c # cs) k = Some (s', g', k')"
    by auto
  define I where "I = (\<lambda>(s :: int) (g :: addrinfo list) (k :: kernel). s = - 1 \<and> g \<noteq> [])"
  have "I s' g' k' \<and> (s' \<noteq> - 1 \<or> g' = [])"
  proof (rule connect_loop_rule [OF run, where I = I])
    show "I (- 1) (c # cs) k" by (simp add: I_def)
  next
    fix c rest k0 s1 g1 k1
    assume a: "attempt w lif la tmo c rest k0 = (s1, g1, k1)"
    from assms have "socket_reply w (now k0) \<noteq> None" by (rule spec)
    then obtain e where "socket_reply w (now k0) = Some e"
      by (cases "socket_reply w (now k0)") simp_all
    with a show "I s1 g1 k1"
      by (auto simp: I_def attempt_def sys_socket_def fails_def)
  qed
  then show False by (auto simp: I_def)
qed

section \<open>The claims\<close>

subsection \<open>C1\<close>

text \<open>
  Claim C1: under a deadline, a connect that is in progress and whose wait for writability
  times out is discarded and never returned as a connection. The code does not do that.
  \<^verbatim>\<open>select\<close> returns 0 on a timeout, line 136 tests \<open>ret == -1\<close> only, and the socket is
  kept. Here the deadline is 5 seconds, the first candidate does not answer, the wait times
  out, and \<open>tcp_connect\<close> returns 1 with descriptor 3 in the connection record; the second
  candidate is never tried.
\<close>

theorem timed_out_wait_is_returned:
  "tcp_connect (calm_world\<lparr>connect_reply := (\<lambda>t. Later (Some 110)),
                            select_reply := (\<lambda>t. Timed_out)\<rparr>)
       False tcp0 ''example.org'' 80 0 None [] 5 process0
     = Some (1, \<lparr>fd = 3, ai_family = 0, ssl = None\<rparr>, [],
        \<lparr>open_fds = [3, 0, 1, 2], nonblock = [], errno = 115,
         trace =
           [(Getaddrinfo ''example.org'' ''80''
              \<lparr>ai_flags = 32, ai_family = 0, ai_socktype = 1, ai_protocol = 0, ai_addr = []\<rparr>,
             Ret 0),
            (Socket 2 1 6, Ret 3), (Fcntl_setfl 3 2048, Ret 0),
            (Connect 3 ''192.0.2.1:80'', Err 115), (Select 3 5, Ret 0),
            (Fcntl_setfl 3 0, Ret 0), (Freeaddrinfo, Ret 0),
            (Setsockopt 3 1 20 5, Ret 0), (Setsockopt 3 1 21 5, Ret 0)]\<rparr>)"
  by (simp add: run_defs connect_loop.simps)

subsection \<open>C2\<close>

text \<open>
  Claim C2: the candidates are tried in order, a candidate whose socket cannot be created is
  skipped, and the iteration always ends. The code does not advance on that path: when
  \<^verbatim>\<open>socket\<close> fails, \<open>gai_result\<close> stays where it is (only the bind and connect failures of
  lines 114 and 139 advance it), and the loop runs again with the same candidate. When
  \<^verbatim>\<open>socket\<close> keeps failing (\<open>EMFILE\<close>, 24) \<open>tcp_connect\<close> never returns; when it fails once,
  the first candidate is tried a second time instead of the second candidate.
\<close>

theorem socket_failure_repeats_candidate:
  "tcp_connect (calm_world\<lparr>socket_reply := (\<lambda>t. Some 24)\<rparr>)
       False tcp0 ''example.org'' 80 0 None [] 0 process0 = None \<and>
   tcp_connect (calm_world\<lparr>socket_reply := (\<lambda>t. if t = 1 then Some 24 else None)\<rparr>)
       False tcp0 ''example.org'' 80 0 None [] 0 process0
     = Some (1, \<lparr>fd = 3, ai_family = 0, ssl = None\<rparr>, [],
        \<lparr>open_fds = [3, 0, 1, 2], nonblock = [], errno = 24,
         trace =
           [(Getaddrinfo ''example.org'' ''80''
              \<lparr>ai_flags = 32, ai_family = 0, ai_socktype = 1, ai_protocol = 0, ai_addr = []\<rparr>,
             Ret 0),
            (Socket 2 1 6, Err 24), (Socket 2 1 6, Ret 3),
            (Connect 3 ''192.0.2.1:80'', Ret 0), (Fcntl_setfl 3 0, Ret 0),
            (Freeaddrinfo, Ret 0), (Setsockopt 3 1 20 0, Ret 0),
            (Setsockopt 3 1 21 0, Ret 0)]\<rparr>)"
proof (rule conjI)
  have "\<forall>t. socket_reply (calm_world\<lparr>socket_reply := (\<lambda>t. Some 24)\<rparr>) t \<noteq> None"
    by simp
  from stuck_loop [OF this]
  show "tcp_connect (calm_world\<lparr>socket_reply := (\<lambda>t. Some 24)\<rparr>)
       False tcp0 ''example.org'' 80 0 None [] 0 process0 = None"
    by (simp add: tcp_connect_def sys_getaddrinfo_def calm_world_def Let_def)
next
  show "tcp_connect (calm_world\<lparr>socket_reply := (\<lambda>t. if t = 1 then Some 24 else None)\<rparr>)
       False tcp0 ''example.org'' 80 0 None [] 0 process0
     = Some (1, \<lparr>fd = 3, ai_family = 0, ssl = None\<rparr>, [],
        \<lparr>open_fds = [3, 0, 1, 2], nonblock = [], errno = 24,
         trace =
           [(Getaddrinfo ''example.org'' ''80''
              \<lparr>ai_flags = 32, ai_family = 0, ai_socktype = 1, ai_protocol = 0, ai_addr = []\<rparr>,
             Ret 0),
            (Socket 2 1 6, Err 24), (Socket 2 1 6, Ret 3),
            (Connect 3 ''192.0.2.1:80'', Ret 0), (Fcntl_setfl 3 0, Ret 0),
            (Freeaddrinfo, Ret 0), (Setsockopt 3 1 20 0, Ret 0),
            (Setsockopt 3 1 21 0, Ret 0)]\<rparr>)"
    by (simp add: run_defs connect_loop.simps)
qed

subsection \<open>C3\<close>

text \<open>
  Claim C3: with a non-empty local address, the socket of an IPv4 candidate is bound to
  exactly that address. The code fills \<open>local_addr\<close> in only when the family asked for in
  the connection record is \<open>AF_INET\<close> (line 75), and binds whenever the candidate's family
  is \<open>AF_INET\<close> (line 105). With the family left unspecified and the local address
  192.168.1.5, the IPv4 candidate is bound to the zeroed address.
\<close>

theorem bind_uses_zeroed_address:
  "tcp_connect calm_world False tcp0 ''example.org'' 80 0 (Some ''192.168.1.5'') [] 0 process0
     = Some (1, \<lparr>fd = 3, ai_family = 0, ssl = None\<rparr>, [],
        \<lparr>open_fds = [3, 0, 1, 2], nonblock = [], errno = 0,
         trace =
           [(Getaddrinfo ''example.org'' ''80''
              \<lparr>ai_flags = 32, ai_family = 0, ai_socktype = 1, ai_protocol = 0, ai_addr = []\<rparr>,
             Ret 0),
            (Socket 2 1 6, Ret 3),
            (Bind 3 \<lparr>sin_family = 0, sin_port = 0, sin_addr = 0\<rparr>, Ret 0),
            (Connect 3 ''192.0.2.1:80'', Ret 0), (Fcntl_setfl 3 0, Ret 0),
            (Freeaddrinfo, Ret 0), (Setsockopt 3 1 20 0, Ret 0),
            (Setsockopt 3 1 21 0, Ret 0)]\<rparr>)"
  by (simp add: run_defs connect_loop.simps)

subsection \<open>C4\<close>

text \<open>
  Claim C4: with a secure session, \<open>tcp_close\<close> tears the session down and then closes the
  descriptor. In the code \<^verbatim>\<open>close(tcp->fd)\<close> is the \<open>else\<close> branch of the test for a session
  (lines 199-204): with a session only \<^verbatim>\<open>ssl_disconnect\<close> is called, and descriptor 3 stays
  in the table of open descriptors.
\<close>

theorem secure_close_leaves_descriptor_open:
  "tcp_close True (\<lparr>fd = 3, tcp_t.ai_family = AF_UNSPEC, ssl = Some 1\<rparr>,
                   process0\<lparr>open_fds := [3, 0, 1, 2]\<rparr>)
     = (\<lparr>fd = - 1, tcp_t.ai_family = AF_UNSPEC, ssl = None\<rparr>,
        \<lparr>open_fds = [3, 0, 1, 2], nonblock = [], errno = 0,
         trace = [(Ssl_disconnect 1, Ret 0)]\<rparr>)"
  by (simp add: tcp_close_def ssl_disconnect_def emit_def process0_def)

subsection \<open>C5\<close>

text \<open>
  Claim C5. Every descriptor \<open>tcp_connect\<close> opens for an attempt it abandons (failed bind,
  failed connect or wait, failed handshake) is closed again. One run of the loop body that
  ends without a socket leaves the table of open descriptors as it found it, so the socket
  is closed before the next candidate is tried; and when \<open>tcp_connect\<close> returns failure the
  table is the one it was called with, while on success the only new descriptor is the one
  stored in the connection record.
\<close>

theorem abandoned_sockets_are_closed:
  "(attempt w local_if local_addr io_timeout c rest k0 = (s, g, k1) \<and> s = - 1
      \<longrightarrow> open_fds k1 = open_fds k0) \<and>
   (tcp_connect w have_ssl tcp hostname port secure local_if message io_timeout k
        = Some (r, tcp', message', k')
      \<longrightarrow> open_fds k' = (if r = - 1 then open_fds k else fd tcp' # open_fds k))"
proof (intro conjI impI)
  assume "attempt w local_if local_addr io_timeout c rest k0 = (s, g, k1) \<and> s = - 1"
  then have "attempt w local_if local_addr io_timeout c rest k0 = (s, g, k1)" and "s = - 1"
    by simp_all
  with attempt_open_fds [of w local_if local_addr io_timeout c rest k0 s g k1]
  show "open_fds k1 = open_fds k0" by simp
next
  assume "tcp_connect w have_ssl tcp hostname port secure local_if message io_timeout k
        = Some (r, tcp', message', k')"
  then show "open_fds k' = (if r = - 1 then open_fds k else fd tcp' # open_fds k)"
    by (rule tcp_connect_open_fds)
qed

text \<open>
  Runs for C5: an attempt bound to the local address whose bind fails (\<open>EADDRNOTAVAIL\<close>,
  99), and a call whose first candidate connects and whose handshake fails; descriptor 3
  is closed in both.
\<close>

theorem abandoned_sockets_are_closed_witness:
  "attempt (calm_world\<lparr>bind_reply := (\<lambda>t. Some 99)\<rparr>) (Some ''192.168.1.5'')
       \<lparr>sin_family = 2, sin_port = 0, sin_addr = 0x0501A8C0\<rparr> 5 addr_A [addr_B] process0
     = (- 1, [addr_B], after_failed_bind)
   \<and> open_fds after_failed_bind = open_fds process0
   \<and> tcp_connect (calm_world\<lparr>ssl_reply := (\<lambda>t. Inl ''certificate verify failed'')\<rparr>)
       True tcp0 ''example.org'' 443 1 None [] 0 process0
     = Some (- 1, \<lparr>fd = - 1, ai_family = 0, ssl = None\<rparr>, ''certificate verify failed'',
             after_failed_handshake)
   \<and> open_fds after_failed_handshake = open_fds process0"
proof -
  have step: "attempt (calm_world\<lparr>bind_reply := (\<lambda>t. Some 99)\<rparr>) (Some ''192.168.1.5'')
       \<lparr>sin_family = 2, sin_port = 0, sin_addr = 0x0501A8C0\<rparr> 5 addr_A [addr_B] process0
     = (- 1, [addr_B], after_failed_bind)"
    by (simp add: run_defs after_failed_bind_def)
  have run: "tcp_connect (calm_world\<lparr>ssl_reply := (\<lambda>t. Inl ''certificate verify failed'')\<rparr>)
       True tcp0 ''example.org'' 443 1 None [] 0 process0
     = Some (- 1, \<lparr>fd = - 1, ai_family = 0, ssl = None\<rparr>, ''certificate verify failed'',
             after_failed_handshake)"
    by (simp add: run_defs after_failed_handshake_def connect_loop.simps)
  from abandoned_sockets_are_closed [THEN conjunct1, rule_format, OF conjI, OF step refl]
  have one: "open_fds after_failed_bind = open_fds process0" .
  from abandoned_sockets_are_closed [THEN conjunct2, rule_format, OF run]
  have two: "open_fds after_failed_handshake = open_fds process0"
    by simp
  from run two have "tcp_connect (calm_world\<lparr>ssl_reply := (\<lambda>t. Inl ''certificate verify failed'')\<rparr>)
       True tcp0 ''example.org'' 443 1 None [] 0 process0
     = Some (- 1, \<lparr>fd = - 1, ai_family = 0, ssl = None\<rparr>, ''certificate verify failed'',
             after_failed_handshake)
   \<and> open_fds after_failed_handshake = open_fds process0"
    by (rule conjI)
  with one have "open_fds after_failed_bind = open_fds process0
   \<and> tcp_connect (calm_world\<lparr>ssl_reply := (\<lambda>t. Inl ''certificate verify failed'')\<rparr>)
       True tcp0 ''example.org'' 443 1 None [] 0 process0
     = Some (- 1, \<lparr>fd = - 1, ai_family = 0, ssl = None\<rparr>, ''certificate verify failed'',
             after_failed_handshake)
   \<and> open_fds after_failed_handshake = open_fds process0"
    by (rule conjI)
  with step show ?thesis by (rule conjI)
qed

subsection \<open>C6\<close>

text \<open>
  Claim C6. \<open>tcp_close\<close> is idempotent: a second call on the connection the first call
  left behind changes nothing (neither the record nor the kernel: no call is made, no
  error is set).
\<close>

theorem tcp_close_idempotent:
  "tcp_close have_ssl (tcp_close have_ssl s) = tcp_close have_ssl s"
  by (cases s) (simp add: tcp_close_def split: option.splits)

subsection \<open>C7\<close>

text \<open>
  Claim C7. With \<open>io_timeout = 0\<close> no deadline is imposed on the connect phase: the run
  makes no call that switches a socket to non-blocking mode and no \<^verbatim>\<open>select\<close> (given
  that \<open>EINPROGRESS\<close> is not the final outcome of a connection attempt, as POSIX has it);
  and with a single candidate whose connection is established only after a while, the
  plain \<open>tcp_connect\<close> returns 1 with the new descriptor in the connection record.
\<close>

theorem zero_timeout_connect_blocks:
  "(tcp_connect w have_ssl tcp hostname port secure local_if message 0 k
       = Some (r, tcp', message', k') \<and>
    (\<forall>t. connect_reply w t \<noteq> At_once (Some EINPROGRESS) \<and>
         connect_reply w t \<noteq> Later (Some EINPROGRESS))
    \<longrightarrow> list_all (\<lambda>x. \<not> sets_nonblock (fst x) \<and> \<not> is_select (fst x)) (calls_since k k')) \<and>
   (getaddrinfo w hostname (take 9 (show_int port))
       \<lparr>ai_flags = AI_ADDRCONFIG, ai_family = tcp_t.ai_family tcp,
        ai_socktype = SOCK_STREAM, ai_protocol = 0, ai_addr = []\<rparr> = (0, [c]) \<and>
    (\<forall>t. socket_reply w t = None \<and> bind_reply w t = None \<and> connect_reply w t = Later None) \<and>
    secure = 0
    \<longrightarrow> (\<exists>k'. tcp_connect w have_ssl tcp hostname port secure local_if message 0 k
                = Some (1, tcp\<lparr>fd := lowest_free (open_fds k)\<rparr>, message, k')))"
proof (intro conjI impI)
  assume h: "tcp_connect w have_ssl tcp hostname port secure local_if message 0 k
       = Some (r, tcp', message', k') \<and>
    (\<forall>t. connect_reply w t \<noteq> At_once (Some EINPROGRESS) \<and>
         connect_reply w t \<noteq> Later (Some EINPROGRESS))"
  then have run: "tcp_connect w have_ssl tcp hostname port secure local_if message 0 k
       = Some (r, tcp', message', k')"
    and posix: "\<forall>t. connect_reply w t \<noteq> At_once (Some EINPROGRESS) \<and>
         connect_reply w t \<noteq> Later (Some EINPROGRESS)" by auto
  have "advances (\<lambda>c. \<not> sets_nonblock c \<and> \<not> is_select c) k k'"
  proof (rule tcp_connect_advances [OF run], goal_cases)
    case (7 s a k r k2)
    with blocking_connect_not_in_progress [OF posix, of s k a r k2] show ?case by simp
  qed (simp_all add: sets_nonblock_def is_select_def O_NONBLOCK_def)
  then show "list_all (\<lambda>x. \<not> sets_nonblock (fst x) \<and> \<not> is_select (fst x)) (calls_since k k')"
    by (simp add: advances_def)
next
  assume h: "getaddrinfo w hostname (take 9 (show_int port))
       \<lparr>ai_flags = AI_ADDRCONFIG, ai_family = tcp_t.ai_family tcp,
        ai_socktype = SOCK_STREAM, ai_protocol = 0, ai_addr = []\<rparr> = (0, [c]) \<and>
    (\<forall>t. socket_reply w t = None \<and> bind_reply w t = None \<and> connect_reply w t = Later None) \<and>
    secure = 0"
  define k1 where "k1 = emit (Getaddrinfo hostname (take 9 (show_int port))
       \<lparr>ai_flags = AI_ADDRCONFIG, ai_family = tcp_t.ai_family tcp,
        ai_socktype = SOCK_STREAM, ai_protocol = 0, ai_addr = []\<rparr>) (Ret 0) k"
  have fds: "open_fds k1 = open_fds k" by (simp add: k1_def emit_def)
  from h attempt_slow_success [of w local_if "prepare_local_addr w tcp local_if" c "[]" k1]
  obtain k2 where a: "attempt w local_if (prepare_local_addr w tcp local_if) 0 c [] k1
                        = (lowest_free (open_fds k), [c], k2)"
    by (auto simp: fds)
  have ne: "lowest_free (open_fds k) \<noteq> - 1"
    using lowest_free_nonneg [of "open_fds k"] by simp
  have "connect_loop w local_if (prepare_local_addr w tcp local_if) 0
          (lowest_free (open_fds k)) [c] k2 = Some (lowest_free (open_fds k), [c], k2)"
    using ne by (subst connect_loop.simps) simp
  then have loop: "connect_loop w local_if (prepare_local_addr w tcp local_if) 0 (- 1) [c] k1
                     = Some (lowest_free (open_fds k), [c], k2)"
    using a by (subst connect_loop.simps) simp
  from h loop ne show "\<exists>k'. tcp_connect w have_ssl tcp hostname port secure local_if message 0 k
                = Some (1, tcp\<lparr>fd := lowest_free (open_fds k)\<rparr>, message, k')"
    by (simp add: tcp_connect_def sys_getaddrinfo_def finish_def k1_def)
qed

text \<open>A run for C7: one candidate, a connection that takes time, no deadline.\<close>

theorem zero_timeout_connect_blocks_witness:
  "tcp_connect (calm_world\<lparr>getaddrinfo := (\<lambda>n s h. (0, [addr_A])),
                            connect_reply := (\<lambda>t. Later None)\<rparr>)
       False tcp0 ''example.org'' 80 0 None [] 0 process0
     = Some (1, \<lparr>fd = 3, ai_family = 0, ssl = None\<rparr>, [],
        \<lparr>open_fds = [3, 0, 1, 2], nonblock = [], errno = 0,
         trace =
           [(Getaddrinfo ''example.org'' ''80''
              \<lparr>ai_flags = 32, ai_family = 0, ai_socktype = 1, ai_protocol = 0, ai_addr = []\<rparr>,
             Ret 0),
            (Socket 2 1 6, Ret 3), (Connect 3 ''192.0.2.1:80'', Ret 0),
            (Fcntl_setfl 3 0, Ret 0), (Freeaddrinfo, Ret 0),
            (Setsockopt 3 1 20 0, Ret 0), (Setsockopt 3 1 21 0, Ret 0)]\<rparr>)
   \<and> list_all (\<lambda>x. \<not> sets_nonblock (fst x) \<and> \<not> is_select (fst x))
       (calls_since process0
          \<lparr>open_fds = [3, 0, 1, 2], nonblock = [], errno = 0,
           trace =
             [(Getaddrinfo ''example.org'' ''80''
                \<lparr>ai_flags = 32, ai_family = 0, ai_socktype = 1, ai_protocol = 0, ai_addr = []\<rparr>,
               Ret 0),
              (Socket 2 1 6, Ret 3), (Connect 3 ''192.0.2.1:80'', Ret 0),
              (Fcntl_setfl 3 0, Ret 0), (Freeaddrinfo, Ret 0),
              (Setsockopt 3 1 20 0, Ret 0), (Setsockopt 3 1 21 0, Ret 0)]\<rparr>)
   \<and> (\<exists>k'. tcp_connect (calm_world\<lparr>getaddrinfo := (\<lambda>n s h. (0, [addr_A])),
                                   connect_reply := (\<lambda>t. Later None)\<rparr>)
               False tcp0 ''example.org'' 80 0 None [] 0 process0
             = Some (1, tcp0\<lparr>fd := lowest_free (open_fds process0)\<rparr>, [], k'))"
proof -
  let ?w = "calm_world\<lparr>getaddrinfo := (\<lambda>n s h. (0, [addr_A])),
                            connect_reply := (\<lambda>t. Later None)\<rparr>"
  let ?k = "\<lparr>open_fds = [3, 0, 1, 2], nonblock = [], errno = 0,
           trace =
             [(Getaddrinfo ''example.org'' ''80''
                \<lparr>ai_flags = 32, ai_family = 0, ai_socktype = 1, ai_protocol = 0, ai_addr = []\<rparr>,
               Ret 0),
              (Socket 2 1 6, Ret 3), (Connect 3 ''192.0.2.1:80'', Ret 0),
              (Fcntl_setfl 3 0, Ret 0), (Freeaddrinfo, Ret 0),
              (Setsockopt 3 1 20 0, Ret 0), (Setsockopt 3 1 21 0, Ret 0)]\<rparr>"
  have run: "tcp_connect ?w False tcp0 ''example.org'' 80 0 None [] 0 process0
     = Some (1, \<lparr>fd = 3, ai_family = 0, ssl = None\<rparr>, [], ?k)"
    by (simp add: run_defs connect_loop.simps)
  have posix: "\<forall>t. connect_reply ?w t \<noteq> At_once (Some EINPROGRESS) \<and>
         connect_reply ?w t \<noteq> Later (Some EINPROGRESS)"
    by simp
  have slow: "getaddrinfo ?w ''example.org'' (take 9 (show_int 80))
       \<lparr>ai_flags = AI_ADDRCONFIG, ai_family = tcp_t.ai_family tcp0,
        ai_socktype = SOCK_STREAM, ai_protocol = 0, ai_addr = []\<rparr> = (0, [addr_A]) \<and>
    (\<forall>t. socket_reply ?w t = None \<and> bind_reply ?w t = None \<and> connect_reply ?w t = Later None) \<and>
    (0 :: int) = 0"
    by (simp add: calm_world_def)
  from zero_timeout_connect_blocks [THEN conjunct1, rule_format, OF conjI, OF run posix]
  have calls: "list_all (\<lambda>x. \<not> sets_nonblock (fst x) \<and> \<not> is_select (fst x))
                 (calls_since process0 ?k)" .
  from zero_timeout_connect_blocks [THEN conjunct2, rule_format, OF slow]
  have "\<exists>k'. tcp_connect ?w False tcp0 ''example.org'' 80 0 None [] 0 process0
             = Some (1, tcp0\<lparr>fd := lowest_free (open_fds process0)\<rparr>, [], k')" .
  with calls have "list_all (\<lambda>x. \<not> sets_nonblock (fst x) \<and> \<not> is_select (fst x))
                 (calls_since process0 ?k) \<and>
     (\<exists>k'. tcp_connect ?w False tcp0 ''example.org'' 80 0 None [] 0 process0
             = Some (1, tcp0\<lparr>fd := lowest_free (open_fds process0)\<rparr>, [], k'))"
    by (rule conjI)
  with run show ?thesis by (rule conjI)
qed

subsection \<open>C8\<close>

text \<open>
  Claim C8. When \<open>tcp_connect\<close> returns failure and it attempted no handshake (name
  resolution failed, or no candidate is left), the buffer holds the message
  \<^verbatim>\<open>Unable to connect to server {hostname}:{port}: {reason}\<close>, ended by the line feed of
  the format of line 57. The reason is the resolver's text for its return code when
  resolution failed, and otherwise the text for \<open>errno\<close>, which is the code of the last
  call of the run that failed; when the resolver gave at least one candidate there is such
  a call.
\<close>

theorem failure_message:
  assumes run: "tcp_connect w have_ssl tcp hostname port secure local_if message io_timeout k
             = Some (r, tcp', message', k')"
    and fail: "r = - 1"
    and nossl: "list_all (\<lambda>x. \<not> is_ssl_connect (fst x)) (calls_since k k')"
    and res: "getaddrinfo w hostname (take 9 (show_int port))
             \<lparr>ai_flags = AI_ADDRCONFIG, ai_family = tcp_t.ai_family tcp,
              ai_socktype = SOCK_STREAM, ai_protocol = 0, ai_addr = []\<rparr> = (rc, cands)"
  shows "message' =
           ''Unable to connect to server '' @ hostname @ '':'' @ show_int port @ '': '' @
             (if rc \<noteq> 0 then gai_strerror w rc else strerror w (errno k')) @ [CHR 0x0A] \<and>
         errno k' = (case last_error (calls_since k k') of Some e \<Rightarrow> e | None \<Rightarrow> errno k) \<and>
         (rc = 0 \<and> cands \<noteq> [] \<longrightarrow> last_error (calls_since k k') \<noteq> None)"
proof -
  define hints where "hints = \<lparr>ai_flags = AI_ADDRCONFIG, ai_family = tcp_t.ai_family tcp,
                      ai_socktype = SOCK_STREAM, ai_protocol = 0, ai_addr = []\<rparr>"
  define k1 where "k1 = emit (Getaddrinfo hostname (take 9 (show_int port)) hints) (Ret rc) k"
  have ga: "sys_getaddrinfo w hostname (take 9 (show_int port)) hints k = (rc, cands, k1)"
    using res by (simp add: sys_getaddrinfo_def hints_def k1_def)
  have a1: "advances (\<lambda>c. True) k k1"
    by (rule getaddrinfo_advances [OF _ ga]) simp
  show ?thesis
  proof (cases "rc = 0")
    case False
    with run ga have "message' = tcp_error hostname port (gai_strerror w rc)" and "k' = k1"
      by (auto simp: tcp_connect_def Let_def hints_def)
    with a1 False show ?thesis by (simp add: tcp_error_def advances_def)
  next
    case True
    with run ga obtain s g k2 where
      loop: "connect_loop w local_if (prepare_local_addr w tcp local_if) io_timeout (- 1) cands k1
               = Some (s, g, k2)"
      and fin: "finish w have_ssl tcp hostname port secure message io_timeout s
                  (sys_freeaddrinfo k2) = (r, tcp', message', k')"
      by (auto simp: tcp_connect_def Let_def hints_def split: option.splits)
    define k3 where "k3 = sys_freeaddrinfo k2"
    have a2: "advances (\<lambda>c. True) k1 k2"
      by (rule connect_loop_advances [OF loop]) simp_all
    have a3: "advances (\<lambda>c. True) k2 k3"
      unfolding k3_def by (rule freeaddrinfo_advances) simp
    from a1 a2 a3 have a: "advances (\<lambda>c. True) k k3"
      by (blast intro: advances_trans)
    show ?thesis
    proof (cases "s = - 1")
      case s: True
      with fin have "message' = tcp_error hostname port (strerror w (errno k3))" and "k' = k3"
        by (auto simp: finish_def k3_def)
      moreover have "cands \<noteq> [] \<longrightarrow> last_error (calls_since k k3) \<noteq> None"
      proof
        assume "cands \<noteq> []"
        from connect_loop_erred [OF loop s this]
        have "last_error (calls_since k1 k2) \<noteq> None" .
        with a1 a2 have "last_error (calls_since k k2) \<noteq> None"
          by (rule erred_right)
        with advances_trans [OF a1 a2] a3 show "last_error (calls_since k k3) \<noteq> None"
          by (rule erred_left)
      qed
      ultimately show ?thesis
        using a True by (simp add: tcp_error_def advances_def)
    next
      case s: False
      show ?thesis
      proof (cases "have_ssl \<and> secure \<noteq> 0")
        case False
        with fin s fail show ?thesis by (auto simp: finish_def)
      next
        case ssl: True
        obtain session m1 k4
          where sc: "ssl_connect w s hostname message k3 = (session, m1, k4)"
          by (cases "ssl_connect w s hostname message k3") auto
        from ssl_connect_trace [OF sc] obtain res
          where t4: "trace k4 = trace k3 @ [(Ssl_connect s hostname, res)]" by blast
        from fin s ssl sc fail have "k' = sys_close s k4"
          by (auto simp: finish_def k3_def split: if_splits)
        moreover obtain x where "trace (sys_close s k4) = trace k4 @ [x]"
          using close_trace by blast
        ultimately have "trace k' = trace k3 @ [(Ssl_connect s hostname, res), x]"
          using t4 by simp
        with a have "calls_since k k' = calls_since k k3 @ [(Ssl_connect s hostname, res), x]"
          by (intro calls_since_extend) (simp_all add: advances_def)
        with nossl show ?thesis by (simp add: is_ssl_connect_def)
      qed
    qed
  qed
qed

text \<open>A run for C8: both candidates refuse the connection (\<open>ECONNREFUSED\<close>, 111).\<close>

theorem failure_message_witness:
  "tcp_connect (calm_world\<lparr>connect_reply := (\<lambda>t. At_once (Some 111))\<rparr>)
       True tcp0 ''example.org'' 443 1 None ''old'' 0 process0
     = Some (- 1, \<lparr>fd = - 1, ai_family = 0, ssl = None\<rparr>,
        ''Unable to connect to server example.org:443: Connection refused'' @ [CHR 0x0A],
        \<lparr>open_fds = [0, 1, 2], nonblock = [], errno = 111,
         trace =
           [(Getaddrinfo ''example.org'' ''443''
              \<lparr>ai_flags = 32, ai_family = 0, ai_socktype = 1, ai_protocol = 0, ai_addr = []\<rparr>,
             Ret 0),
            (Socket 2 1 6, Ret 3), (Connect 3 ''192.0.2.1:80'', Err 111), (Close 3, Ret 0),
            (Socket 2 1 6, Ret 3), (Connect 3 ''192.0.2.2:80'', Err 111), (Close 3, Ret 0),
            (Freeaddrinfo, Ret 0)]\<rparr>)
   \<and> ''Unable to connect to server example.org:443: Connection refused'' @ [CHR 0x0A]
       = ''Unable to connect to server '' @ ''example.org'' @ '':'' @ show_int 443 @ '': ''
           @ strerror (calm_world\<lparr>connect_reply := (\<lambda>t. At_once (Some 111))\<rparr>) 111 @ [CHR 0x0A]
   \<and> [addr_A, addr_B] \<noteq> []"
proof -
  let ?w = "calm_world\<lparr>connect_reply := (\<lambda>t. At_once (Some 111))\<rparr>"
  let ?k = "\<lparr>open_fds = [0, 1, 2], nonblock = [], errno = 111,
         trace =
           [(Getaddrinfo ''example.org'' ''443''
              \<lparr>ai_flags = 32, ai_family = 0, ai_socktype = 1, ai_protocol = 0, ai_addr = []\<rparr>,
             Ret 0),
            (Socket 2 1 6, Ret 3), (Connect 3 ''192.0.2.1:80'', Err 111), (Close 3, Ret 0),
            (Socket 2 1 6, Ret 3), (Connect 3 ''192.0.2.2:80'', Err 111), (Close 3, Ret 0),
            (Freeaddrinfo, Ret 0)]\<rparr>"
  have run: "tcp_connect ?w True tcp0 ''example.org'' 443 1 None ''old'' 0 process0
     = Some (- 1, \<lparr>fd = - 1, ai_family = 0, ssl = None\<rparr>,
        ''Unable to connect to server example.org:443: Connection refused'' @ [CHR 0x0A], ?k)"
    by (simp add: run_defs connect_loop.simps)
  have nossl: "list_all (\<lambda>x. \<not> is_ssl_connect (fst x)) (calls_since process0 ?k)"
    by (simp add: calls_since_def process0_def is_ssl_connect_def)
  have res: "getaddrinfo ?w ''example.org'' (take 9 (show_int 443))
             \<lparr>ai_flags = AI_ADDRCONFIG, ai_family = tcp_t.ai_family tcp0,
              ai_socktype = SOCK_STREAM, ai_protocol = 0, ai_addr = []\<rparr> = (0, [addr_A, addr_B])"
    by (simp add: calm_world_def)
  from failure_message [OF run refl nossl res]
  have "''Unable to connect to server example.org:443: Connection refused'' @ [CHR 0x0A]
       = ''Unable to connect to server '' @ ''example.org'' @ '':'' @ show_int 443 @ '': ''
           @ strerror ?w 111 @ [CHR 0x0A]"
    by simp
  moreover have "[addr_A, addr_B] \<noteq> []" by simp
  ultimately have "''Unable to connect to server example.org:443: Connection refused'' @ [CHR 0x0A]
       = ''Unable to connect to server '' @ ''example.org'' @ '':'' @ show_int 443 @ '': ''
           @ strerror ?w 111 @ [CHR 0x0A] \<and> [addr_A, addr_B] \<noteq> []"
    by (rule conjI)
  with run show ?thesis by (rule conjI)
qed

subsection \<open>C9\<close>

text \<open>
  Claim C9. When the lookup of \<open>get_if_ip\<close> fails (the socket cannot be created, or the
  \<open>ioctl\<close> fails: unknown interface, no IPv4 address, no permission), the function
  returns 0 and the caller's buffer is as it was; and whatever the outcome, the throwaway
  socket is closed: the table of descriptors is the one before the call.
\<close>

theorem get_if_ip_failure:
  assumes "get_if_ip w iface ip k = (ret, ip', k')"
  shows "(ret = 0 \<longrightarrow> ip' = ip) \<and>
         (socket_reply w (now k) \<noteq> None \<longrightarrow> ret = 0) \<and>
         ((\<exists>e. gifaddr_reply w (Suc (now k)) (take (IFNAMSIZ - 1) iface) = Inl e) \<longrightarrow> ret = 0) \<and>
         open_fds k' = open_fds k"
proof -
  obtain s k1 where sock: "sys_socket w PF_INET SOCK_DGRAM IPPROTO_IP k = (s, k1)"
    by (cases "sys_socket w PF_INET SOCK_DGRAM IPPROTO_IP k")
  show ?thesis
  proof (cases "s < 0")
    case True
    with sock socket_open_fds [OF sock] assms show ?thesis
      by (auto simp: get_if_ip_def)
  next
    case False
    obtain r a k2 where io: "sys_ioctl_gifaddr w s (take (IFNAMSIZ - 1) iface) k1 = (r, a, k2)"
      by (cases "sys_ioctl_gifaddr w s (take (IFNAMSIZ - 1) iface) k1") auto
    from False socket_open_fds [OF sock]
    have fresh: "s \<notin> set (open_fds k)" and op: "open_fds k1 = s # open_fds k"
      by auto
    have now1: "now k1 = Suc (now k)" and ok: "socket_reply w (now k) = None"
      using sock False
      by (auto simp: sys_socket_def fails_def returns_def emit_def now_def Let_def
          split: option.splits)
    have fds: "open_fds (sys_close s k2) = open_fds k"
      using close_new_fd [OF fresh] ioctl_open_fds [OF io] op by simp
    have r: "(\<exists>e. gifaddr_reply w (Suc (now k)) (take (IFNAMSIZ - 1) iface) = Inl e) \<longrightarrow> r \<noteq> 0"
      using io now1 by (auto simp: sys_ioctl_gifaddr_def split: sum.splits)
    from assms sock False io fds r ok show ?thesis
      by (auto simp: get_if_ip_def Let_def split: if_splits)
  qed
qed

text \<open>A run for C9: the interface \<open>wlan7\<close> is unknown (\<open>ENODEV\<close>, 19).\<close>

theorem get_if_ip_failure_witness:
  "get_if_ip calm_world ''wlan7'' ''junk'' process0
     = (0, ''junk'',
        \<lparr>open_fds = [0, 1, 2], nonblock = [], errno = 19,
         trace = [(Socket 2 2 0, Ret 3), (Ioctl_gifaddr 3 ''wlan7'', Err 19), (Close 3, Ret 0)]\<rparr>)
   \<and> gifaddr_reply calm_world (Suc (now process0)) (take (IFNAMSIZ - 1) ''wlan7'') = Inl 19
   \<and> [0, 1, 2] = open_fds process0"
proof -
  have run: "get_if_ip calm_world ''wlan7'' ''junk'' process0
     = (0, ''junk'',
        \<lparr>open_fds = [0, 1, 2], nonblock = [], errno = 19,
         trace = [(Socket 2 2 0, Ret 3), (Ioctl_gifaddr 3 ''wlan7'', Err 19), (Close 3, Ret 0)]\<rparr>)"
    by (simp add: get_if_ip_def run_defs)
  have reply: "gifaddr_reply calm_world (Suc (now process0)) (take (IFNAMSIZ - 1) ''wlan7'') = Inl 19"
    by (simp add: calm_world_def IFNAMSIZ_def)
  from get_if_ip_failure [OF run] have "[0, 1, 2] = open_fds process0"
    by simp
  with reply have "gifaddr_reply calm_world (Suc (now process0)) (take (IFNAMSIZ - 1) ''wlan7'') = Inl 19
      \<and> [0, 1, 2] = open_fds process0"
    by (rule conjI)
  with run show ?thesis by (rule conjI)
qed

subsection \<open>C10\<close>

text \<open>
  Claim C10. When \<open>tcp_connect\<close> returns failure (\<open>-1\<close>: resolution failure, no candidate
  left, or failed handshake), the field \<open>fd\<close> of the connection record is the one it was
  called with.
\<close>

theorem tcp_connect_failure_keeps_fd:
  assumes "tcp_connect w have_ssl tcp hostname port secure local_if message io_timeout k
             = Some (r, tcp', message', k')"
    and "r = - 1"
  shows "fd tcp' = fd tcp"
  using assms
  by (auto simp: tcp_connect_def finish_def Let_def split: prod.splits if_splits option.splits)

text \<open>A run for C10: both candidates refuse the connection (\<open>ECONNREFUSED\<close>, 111).\<close>

theorem tcp_connect_failure_keeps_fd_witness:
  "tcp_connect (calm_world\<lparr>connect_reply := (\<lambda>t. At_once (Some 111))\<rparr>)
       False (tcp0\<lparr>fd := 7\<rparr>) ''example.org'' 80 0 None [] 0 process0
     = Some (- 1, \<lparr>fd = 7, ai_family = 0, ssl = None\<rparr>,
        ''Unable to connect to server example.org:80: Connection refused'' @ [CHR 0x0A],
        \<lparr>open_fds = [0, 1, 2], nonblock = [], errno = 111,
         trace =
           [(Getaddrinfo ''example.org'' ''80''
              \<lparr>ai_flags = 32, ai_family = 0, ai_socktype = 1, ai_protocol = 0, ai_addr = []\<rparr>,
             Ret 0),
            (Socket 2 1 6, Ret 3), (Connect 3 ''192.0.2.1:80'', Err 111), (Close 3, Ret 0),
            (Socket 2 1 6, Ret 3), (Connect 3 ''192.0.2.2:80'', Err 111), (Close 3, Ret 0),
            (Freeaddrinfo, Ret 0)]\<rparr>)
   \<and> 7 = fd (tcp0\<lparr>fd := 7\<rparr>)"
proof -
  have run: "tcp_connect (calm_world\<lparr>connect_reply := (\<lambda>t. At_once (Some 111))\<rparr>)
       False (tcp0\<lparr>fd := 7\<rparr>) ''example.org'' 80 0 None [] 0 process0
     = Some (- 1, \<lparr>fd = 7, ai_family = 0, ssl = None\<rparr>,
        ''Unable to connect to server example.org:80: Connection refused'' @ [CHR 0x0A],
        \<lparr>open_fds = [0, 1, 2], nonblock = [], errno = 111,
         trace =
           [(Getaddrinfo ''example.org'' ''80''
              \<lparr>ai_flags = 32, ai_family = 0, ai_socktype = 1, ai_protocol = 0, ai_addr = []\<rparr>,
             Ret 0),
            (Socket 2 1 6, Ret 3), (Connect 3 ''192.0.2.1:80'', Err 111), (Close 3, Ret 0),
            (Socket 2 1 6, Ret 3), (Connect 3 ''192.0.2.2:80'', Err 111), (Close 3, Ret 0),
            (Freeaddrinfo, Ret 0)]\<rparr>)"
    by (simp add: run_defs connect_loop.simps)
  from tcp_connect_failure_keeps_fd [OF run refl] have "7 = fd (tcp0\<lparr>fd := 7\<rparr>)"
    by (simp del: tcp_t.simps)
  with run show ?thesis by (rule conjI)
qed

end
